theory Spec2Isabelle
  imports Complex_Main "HOL-Library.Signed_Division"
begin

chapter \<open>The model: the code of docgest as functions\<close>

section \<open>Go strings and the standard-library functions the code calls\<close>

text \<open>
  A Go string is a byte sequence that the functions used here (\<^verbatim>\<open>range\<close>,
  \<^verbatim>\<open>strings.Fields\<close>, \<^verbatim>\<open>strings.TrimSpace\<close>, \<^verbatim>\<open>strings.ToLower\<close>, \<^verbatim>\<open>regexp\<close>) read as
  a sequence of UTF-8 encoded code points (runes). A string is modelled as the list of its
  runes, a rune as its code point. \<^verbatim>\<open>len\<close> counts bytes, so it is the sum of the UTF-8
  widths of the runes. Comparisons with ASCII separators (\<^verbatim>\<open>"\n\n"\<close>, \<^verbatim>\<open>"."\<close>, \<^verbatim>\<open>' '\<close>)
  agree on bytes and on runes, since an ASCII byte never occurs inside a multi-byte
  sequence. The texts are taken to be valid UTF-8, as \<^verbatim>\<open>encoding/json\<close> delivers them;
  a byte outside a valid encoding is read by Go as the rune U+FFFD, which is not a space,
  not a letter and in no class used here.
\<close>

type_synonym rune = nat
type_synonym gostring = "rune list"

definition runes :: "string \<Rightarrow> gostring" where
  "runes cs = map of_char cs"

definition utf8_RuneLen :: "rune \<Rightarrow> nat" where
  "utf8_RuneLen r =
     (if r < 0x80 then 1 else if r < 0x800 then 2 else if r < 0x10000 then 3 else 4)"

definition len :: "gostring \<Rightarrow> nat" where
  "len s = sum_list (map utf8_RuneLen s)"

text \<open>\<^verbatim>\<open>unicode.IsSpace\<close>: the code points with the White_Space property.\<close>

definition unicode_IsSpace :: "rune \<Rightarrow> bool" where
  "unicode_IsSpace r \<longleftrightarrow>
     (9 \<le> r \<and> r \<le> 13) \<or> r = 32 \<or> r = 0x85 \<or> r = 0xA0 \<or> r = 0x1680 \<or>
     (0x2000 \<le> r \<and> r \<le> 0x200A) \<or> r = 0x2028 \<or> r = 0x2029 \<or> r = 0x202F \<or>
     r = 0x205F \<or> r = 0x3000"

text \<open>
  \<^verbatim>\<open>strings.Fields\<close>: the maximal runs of non-space runes, in order. \<open>cur\<close> is the
  word being read.
\<close>

fun fields_from :: "gostring \<Rightarrow> gostring \<Rightarrow> gostring list" where
  "fields_from cur [] = (if cur = [] then [] else [cur])"
| "fields_from cur (r # rs) =
     (if unicode_IsSpace r
      then (if cur = [] then fields_from [] rs else cur # fields_from [] rs)
      else fields_from (cur @ [r]) rs)"

definition strings_Fields :: "gostring \<Rightarrow> gostring list" where
  "strings_Fields s = fields_from [] s"

definition strings_TrimSpace :: "gostring \<Rightarrow> gostring" where
  "strings_TrimSpace s = rev (dropWhile unicode_IsSpace (rev (dropWhile unicode_IsSpace s)))"

fun strings_Join :: "gostring list \<Rightarrow> gostring \<Rightarrow> gostring" where
  "strings_Join [] sep = []"
| "strings_Join [x] sep = x"
| "strings_Join (x # y # ys) sep = x @ sep @ strings_Join (y # ys) sep"

text \<open>
  \<^verbatim>\<open>strings.Split(s, sep)\<close> for a non-empty separator: the pieces between the
  non-overlapping occurrences of \<open>sep\<close>, found left to right; one piece more than there
  are separators. (With an empty separator Go splits after every rune.)
\<close>

function split_from :: "gostring \<Rightarrow> gostring \<Rightarrow> gostring \<Rightarrow> gostring list" where
  "split_from sep cur s =
     (if s = [] then [cur]
      else if sep \<noteq> [] \<and> take (length sep) s = sep
           then cur # split_from sep [] (drop (length sep) s)
      else split_from sep (cur @ [hd s]) (tl s))"
  by pat_completeness auto
termination
  by (relation "measure (\<lambda>(sep, cur, s). length s)") auto

definition strings_Split :: "gostring \<Rightarrow> gostring \<Rightarrow> gostring list" where
  "strings_Split s sep = (if sep = [] then map (\<lambda>r. [r]) s else split_from sep [] s)"

text \<open>
  \<^verbatim>\<open>strings.ToLower\<close> maps \<^verbatim>\<open>unicode.ToLower\<close> over the runes. The code compares
  the lowered text only with ASCII literals and ASCII classes, so the table is given where
  the lower case is ASCII: the letters A to Z, and the two other code points whose lower
  case is an ASCII letter (U+0130 to i, U+212A KELVIN SIGN to k). Every other rune is
  outside ASCII before and after lowering and is left as it is.
\<close>

definition unicode_ToLower :: "rune \<Rightarrow> rune" where
  "unicode_ToLower r =
     (if 65 \<le> r \<and> r \<le> 90 then r + 32
      else if r = 0x130 then 105
      else if r = 0x212A then 107
      else r)"

definition strings_ToLower :: "gostring \<Rightarrow> gostring" where
  "strings_ToLower s = map unicode_ToLower s"

text \<open>
  \<^verbatim>\<open>filepath.Ext\<close>: scanning from the end, the suffix from the last dot of the last
  path element; empty when a separator (\<^verbatim>\<open>/\<close>) or the start comes first. \<open>acc\<close> is
  the suffix already passed.
\<close>

fun ext_scan :: "gostring \<Rightarrow> gostring \<Rightarrow> gostring" where
  "ext_scan [] acc = []"
| "ext_scan (r # rs) acc =
     (if r = 47 then [] else if r = 46 then r # acc else ext_scan rs (r # acc))"

definition filepath_Ext :: "gostring \<Rightarrow> gostring" where
  "filepath_Ext path = ext_scan (rev path) []"

section \<open>Token estimator\<close>

text \<open>
  \<^verbatim>\<open>EstimateTokens\<close> computes \<^verbatim>\<open>int(float64(words) * 1.33)\<close>. The float64 product is
  modelled by exact arithmetic: the conversion truncates, and the float64 nearest to 1.33
  exceeds it by less than \<open>10\<^sup>-\<^sup>1\<^sup>6\<close>, so the truncated product is
  \<open>133 * words div 100\<close> for every word count below \<open>10\<^sup>1\<^sup>3\<close>, far more than a
  string in memory can hold. Go's \<^verbatim>\<open>int\<close> is modelled as \<open>int\<close>; the values are
  bounded by the length of the text.
\<close>

definition EstimateTokens :: "gostring \<Rightarrow> int" where
  "EstimateTokens text =
     (if text = [] then 0
      else let words = int (length (strings_Fields text));
               tokens = (133 * words) div 100
           in if tokens < 1 \<and> length text > 0 then 1 else tokens)"

text \<open>The word count of the specification: the number of runs of non-space runes.\<close>

definition wordCount :: "gostring \<Rightarrow> nat" where
  "wordCount s = length (strings_Fields s)"

section \<open>Errors\<close>

text \<open>
  A Go \<^verbatim>\<open>error\<close> value: a plain error (\<^verbatim>\<open>fmt.Errorf\<close> without \<^verbatim>\<open>%w\<close>, or an error
  of a library), the \<^verbatim>\<open>*extract.RetryableError\<close> of the LLM client, or an error
  wrapping another with \<^verbatim>\<open>%w\<close> between the two parts of the format's text.
\<close>

datatype error =
    PlainError gostring
  | RetryableError int gostring
  | WrapError gostring error gostring

section \<open>Parser registry\<close>

datatype Parser = TextParser | MarkdownParser | CSVParser | HTMLParser | PDFParser | DOCXParser

definition SupportedExtensions :: "gostring \<rightharpoonup> bool" where
  "SupportedExtensions = map_of
     [(runes ''.txt'', True), (runes ''.md'', True), (runes ''.csv'', True),
      (runes ''.html'', True), (runes ''.htm'', True), (runes ''.pdf'', True),
      (runes ''.docx'', True)]"

definition ForFile :: "gostring \<Rightarrow> error + Parser" where
  "ForFile filename =
     (let ext = strings_ToLower (filepath_Ext filename) in
      if ext = runes ''.txt'' then Inr TextParser
      else if ext = runes ''.md'' \<or> ext = runes ''.markdown'' then Inr MarkdownParser
      else if ext = runes ''.csv'' then Inr CSVParser
      else if ext = runes ''.html'' \<or> ext = runes ''.htm'' then Inr HTMLParser
      else if ext = runes ''.pdf'' then Inr PDFParser
      else if ext = runes ''.docx'' then Inr DOCXParser
      else Inl (PlainError (runes ''unsupported file extension: '' @ ext)))"

text \<open>A lookup in a Go \<^verbatim>\<open>map[string]bool\<close> gives false for a missing key.\<close>

definition IsSupportedExtension :: "gostring \<Rightarrow> bool" where
  "IsSupportedExtension filename =
     (let ext = strings_ToLower (filepath_Ext filename) in
      case SupportedExtensions ext of None \<Rightarrow> False | Some b \<Rightarrow> b)"

section \<open>Slug normaliser\<close>

text \<open>\<^verbatim>\<open>strings.Trim(s, cutset)\<close>: \<open>s\<close> without its leading and trailing runes of the cutset.\<close>

definition strings_Trim :: "gostring \<Rightarrow> gostring \<Rightarrow> gostring" where
  "strings_Trim s cutset =
     rev (dropWhile (\<lambda>r. r \<in> set cutset) (rev (dropWhile (\<lambda>r. r \<in> set cutset) s)))"

text \<open>The class \<^verbatim>\<open>[a-z0-9-]\<close>.\<close>

definition slug_char :: "rune \<Rightarrow> bool" where
  "slug_char r \<longleftrightarrow> (97 \<le> r \<and> r \<le> 122) \<or> (48 \<le> r \<and> r \<le> 57) \<or> r = 45"

text \<open>
  \<^verbatim>\<open>regexp.MustCompile(`[^a-z0-9-]`).ReplaceAllString(s, "-")\<close>: every rune outside the
  class becomes one dash.
\<close>

definition replace_non_slug :: "gostring \<Rightarrow> gostring" where
  "replace_non_slug s = map (\<lambda>r. if slug_char r then r else 45) s"

text \<open>\<^verbatim>\<open>regexp.MustCompile(`-+`).ReplaceAllString(s, "-")\<close>: every run of dashes becomes one dash.\<close>

fun collapse_dashes :: "gostring \<Rightarrow> gostring" where
  "collapse_dashes (a # b # rs) =
     (if a = 45 \<and> b = 45 then collapse_dashes (b # rs) else a # collapse_dashes (b # rs))"
| "collapse_dashes rs = rs"

text \<open>
  The four normalising steps of \<^verbatim>\<open>Slugify\<close>, before the cut to 50 bytes. Their result
  holds ASCII runes only, so the byte slice \<^verbatim>\<open>s[:50]\<close> of the code is the first 50 runes.
\<close>

definition slug_uncut :: "gostring \<Rightarrow> gostring" where
  "slug_uncut s =
     (let s1 = strings_ToLower (strings_TrimSpace s);
          s2 = replace_non_slug s1;
          s3 = collapse_dashes s2
      in strings_Trim s3 (runes ''-''))"

definition Slugify :: "gostring \<Rightarrow> gostring" where
  "Slugify s = (let s4 = slug_uncut s in if len s4 > 50 then take 50 s4 else s4)"

text \<open>A string that ends in a dash.\<close>

definition ends_in_dash :: "gostring \<Rightarrow> bool" where
  "ends_in_dash s \<longleftrightarrow> s \<noteq> [] \<and> last s = 45"

section \<open>Regular expressions of the fact validator\<close>

text \<open>
  The fragment of Go's \<^verbatim>\<open>regexp\<close> syntax that \<^verbatim>\<open>injectionPattern\<close> uses, under the
  flag \<^verbatim>\<open>(?i)\<close>: literal text, \<^verbatim>\<open>\s*\<close>, \<^verbatim>\<open>\s+\<close>, concatenation and alternation.
\<close>

datatype regex =
    Lit gostring
  | Spaces0
  | Spaces1
  | Seq regex regex
  | Alt regex regex

text \<open>\<^verbatim>\<open>\s\<close> in Go's syntax is the class \<^verbatim>\<open>[\t\n\f\r ]\<close>.\<close>

definition perl_space :: "rune \<Rightarrow> bool" where
  "perl_space r \<longleftrightarrow> r = 9 \<or> r = 10 \<or> r = 12 \<or> r = 13 \<or> r = 32"

text \<open>
  A lower-case ASCII letter \<open>c\<close> of a pattern under \<^verbatim>\<open>(?i)\<close> matches the runes of its
  case-folding orbit: itself, its capital, and for k and s also U+212A and U+017F. Any
  other pattern rune matches itself.
\<close>

definition fold_match :: "rune \<Rightarrow> rune \<Rightarrow> bool" where
  "fold_match c x \<longleftrightarrow>
     x = c \<or> (97 \<le> c \<and> c \<le> 122 \<and> x + 32 = c) \<or>
     (c = 107 \<and> x = 0x212A) \<or> (c = 115 \<and> x = 0x17F)"

fun spaces0_rests :: "gostring \<Rightarrow> gostring list" where
  "spaces0_rests [] = [[]]"
| "spaces0_rests (x # xs) = (if perl_space x then (x # xs) # spaces0_rests xs else [x # xs])"

text \<open>The rests of \<open>s\<close> after each prefix of \<open>s\<close> that the expression matches.\<close>

fun regex_rests :: "regex \<Rightarrow> gostring \<Rightarrow> gostring list" where
  "regex_rests (Lit p) s =
     (if length p \<le> length s \<and> list_all2 fold_match p (take (length p) s)
      then [drop (length p) s] else [])"
| "regex_rests Spaces0 s = spaces0_rests s"
| "regex_rests Spaces1 s =
     (case s of [] \<Rightarrow> [] | x # xs \<Rightarrow> if perl_space x then spaces0_rests xs else [])"
| "regex_rests (Seq a b) s = concat (map (regex_rests b) (regex_rests a s))"
| "regex_rests (Alt a b) s = regex_rests a s @ regex_rests b s"

fun tails :: "gostring \<Rightarrow> gostring list" where
  "tails [] = [[]]"
| "tails (x # xs) = (x # xs) # tails xs"

text \<open>\<^verbatim>\<open>MatchString\<close>: the expression matches somewhere in the string.\<close>

definition MatchString :: "regex \<Rightarrow> gostring \<Rightarrow> bool" where
  "MatchString re s = list_ex (\<lambda>t. regex_rests re t \<noteq> []) (tails s)"

section \<open>Fact model and validator\<close>

text \<open>
  \<^verbatim>\<open>Salience\<close> is a float64 decoded from JSON, hence finite; it is modelled as a real
  number. The comparisons with 0.01 and 1.0 are exact on float64 values: no float64 lies
  between 0.01 and the float64 nearest to it.
\<close>

record Fact =
  Text :: gostring
  Category :: gostring
  Entity :: gostring
  Topics :: "gostring list"
  Salience :: real
  Supersedes :: "gostring list"
  MinTrust :: int

definition validCategories :: "gostring \<rightharpoonup> bool" where
  "validCategories = map_of
     [(runes ''entity_fact'', True), (runes ''preference'', True),
      (runes ''topic_knowledge'', True), (runes ''procedure'', True)]"

definition injectionPattern :: regex where
  "injectionPattern =
     Alt (Seq (Lit (runes ''ignore''))
            (Seq Spaces1 (Alt (Lit (runes ''previous''))
                           (Alt (Lit (runes ''all'')) (Lit (runes ''above''))))))
    (Alt (Seq (Lit (runes ''system'')) (Seq Spaces0 (Lit (runes ''prompt''))))
    (Alt (Seq (Lit (runes ''you''))
            (Seq Spaces1 (Seq (Lit (runes ''are'')) (Seq Spaces1 (Lit (runes ''now''))))))
    (Alt (Seq (Lit (runes ''act'')) (Seq Spaces1 (Seq (Lit (runes ''as'')) Spaces1)))
    (Alt (Seq (Lit (runes ''pretend'')) Spaces1)
    (Alt (Seq (Lit (runes ''forget''))
            (Seq Spaces1 (Alt (Lit (runes ''everything'')) (Lit (runes ''all'')))))
    (Alt (Lit (runes ''override''))
         (Seq (Lit (runes ''new'')) (Seq Spaces1 (Lit (runes ''instructions''))))))))))"

text \<open>
  \<^verbatim>\<open>ValidateFact(f *Fact) bool\<close>. The argument is a pointer: \<open>None\<close> is \<^verbatim>\<open>nil\<close>. The
  result is the returned boolean and the fact behind the pointer after the call.
\<close>

definition ValidateFact :: "Fact option \<Rightarrow> bool \<times> Fact option" where
  "ValidateFact fp =
     (case fp of
        None \<Rightarrow> (False, None)
      | Some f \<Rightarrow>
          let text = strings_TrimSpace (Text f) in
          if len text < 3 \<or> len text > 300 then (False, Some f)
          else if \<not> (case validCategories (Category f) of None \<Rightarrow> False | Some b \<Rightarrow> b)
            then (False, Some f)
          else if MatchString injectionPattern text then (False, Some f)
          else if Salience f < 0.01 \<or> Salience f > 1.0 then (False, Some f)
          else
            let f1 = (if MinTrust f < 0 \<or> MinTrust f > 10 then f\<lparr>MinTrust := 0\<rparr> else f);
                f2 = (if length (Topics f1) > 3 then f1\<lparr>Topics := take 3 (Topics f1)\<rparr> else f1)
            in (True, Some f2))"

section \<open>Jobs and the job store\<close>

datatype JobStatus =
    StatusQueued | StatusParsing | StatusChunking | StatusExtracting | StatusStoring
  | StatusCompleted | StatusFailed | StatusPartial | StatusDupSkipped

record Progress =
  TotalChunks :: int
  ChunksProcessed :: int
  FactsValid :: int
  FactsStored :: int
  Errors :: "gostring list"

text \<open>
  Modelled from the spec: the file that declares \<^verbatim>\<open>Job\<close>, its mutators and
  \<^verbatim>\<open>JobStore\<close> is not among the sources; the fields are those the spec lists (section 3)
  and the callers use, the mutators are those of section 4.7, with the effects their tests
  check. The time stamps \<^verbatim>\<open>CreatedAt\<close> and \<^verbatim>\<open>UpdatedAt\<close>, which every mutator refreshes,
  are left out: nothing modelled here reads the clock.
\<close>

record Job =
  ID :: gostring
  DocID :: gostring
  UserID :: gostring
  Status :: JobStatus
  Phase :: gostring
  Filename :: gostring
  Title :: gostring
  Progress :: Progress
  ContentHash :: gostring
  fileData :: gostring

text \<open>Modelled from the spec: \<^verbatim>\<open>setStatus(status, phase)\<close> of section 4.7.\<close>

definition SetStatus :: "JobStatus \<Rightarrow> gostring \<Rightarrow> Job \<Rightarrow> Job" where
  "SetStatus status phase j = j\<lparr>Status := status, Phase := phase\<rparr>"

text \<open>Modelled from the spec: \<^verbatim>\<open>addError(msg)\<close> of section 4.7; the list is append-only.\<close>

definition AddError :: "gostring \<Rightarrow> Job \<Rightarrow> Job" where
  "AddError msg j = j\<lparr>Progress := (Progress j)\<lparr>Errors := Errors (Progress j) @ [msg]\<rparr>\<rparr>"

text \<open>Modelled from the spec: \<^verbatim>\<open>incrChunksProcessed()\<close> of section 4.7.\<close>

definition IncrChunksProcessed :: "Job \<Rightarrow> Job" where
  "IncrChunksProcessed j =
     j\<lparr>Progress := (Progress j)\<lparr>ChunksProcessed := ChunksProcessed (Progress j) + 1\<rparr>\<rparr>"

text \<open>Modelled from the spec: \<^verbatim>\<open>addFacts(valid, stored)\<close> of section 4.7 adds to both counters.\<close>

definition AddFacts :: "int \<Rightarrow> int \<Rightarrow> Job \<Rightarrow> Job" where
  "AddFacts valid stored j =
     j\<lparr>Progress := (Progress j)\<lparr>FactsValid := FactsValid (Progress j) + valid,
                                   FactsStored := FactsStored (Progress j) + stored\<rparr>\<rparr>"

text \<open>Modelled from the spec: \<^verbatim>\<open>setTotalChunks(n)\<close> of section 4.7.\<close>

definition SetTotalChunks :: "int \<Rightarrow> Job \<Rightarrow> Job" where
  "SetTotalChunks n j = j\<lparr>Progress := (Progress j)\<lparr>TotalChunks := n\<rparr>\<rparr>"

section \<open>Orchestrator: admission\<close>

text \<open>
  Jobs are shared through pointers: the job store and the queue hold the address of a job,
  and \<^verbatim>\<open>Submit\<close> mutates the job behind the address after it has stored it. The state is
  a heap of jobs, the map of the job store, and the queue: a buffered channel with its
  capacity \<^verbatim>\<open>cfg.MaxQueueSize\<close>, the number of workers blocked on a receive (a send hands
  its value to one of them directly; the buffer is empty while a worker waits), the jobs
  handed over so, and whether \<^verbatim>\<open>Stop\<close> has closed the channel.
\<close>

type_synonym addr = nat

record Orchestrator =
  heap :: "addr \<rightharpoonup> Job"
  jobs :: "gostring \<rightharpoonup> addr"
  queue :: "addr list"
  MaxQueueSize :: nat
  receivers :: nat
  handed :: "addr list"
  closed :: bool

datatype panic = Panic

text \<open>
  Modelled from the spec: \<^verbatim>\<open>JobStore.Put\<close> and \<^verbatim>\<open>JobStore.Get\<close> of section 4.7, a map
  from the job's id to the job. \<^verbatim>\<open>Put\<close> reads the id through the pointer.
\<close>

definition JobStore_Put :: "addr \<Rightarrow> Orchestrator \<Rightarrow> panic + Orchestrator" where
  "JobStore_Put p s =
     (case heap s p of
        None \<Rightarrow> Inl Panic
      | Some j \<Rightarrow> Inr (s\<lparr>jobs := (jobs s)(ID j \<mapsto> p)\<rparr>))"

definition JobStore_Get :: "gostring \<Rightarrow> Orchestrator \<Rightarrow> addr option" where
  "JobStore_Get ident s = jobs s ident"

text \<open>
  The outcome of the \<^verbatim>\<open>select\<close> with a send case and a \<^verbatim>\<open>default\<close>: the send is taken
  when it can proceed at once (a send on a closed channel proceeds, and panics).
\<close>

datatype send_outcome = Sent Orchestrator | SendPanics | WouldBlock

definition try_send :: "addr \<Rightarrow> Orchestrator \<Rightarrow> send_outcome" where
  "try_send p s =
     (if closed s then SendPanics
      else if receivers s > 0
        then Sent (s\<lparr>receivers := receivers s - 1, handed := handed s @ [p]\<rparr>)
      else if length (queue s) < MaxQueueSize s then Sent (s\<lparr>queue := queue s @ [p]\<rparr>)
      else WouldBlock)"

text \<open>The decimal digits of \<^verbatim>\<open>%d\<close>.\<close>

fun decimal :: "nat \<Rightarrow> gostring" where
  "decimal n = (if n < 10 then [48 + n] else decimal (n div 10) @ [48 + n mod 10])"

definition Sprintf_d :: "int \<Rightarrow> gostring" where
  "Sprintf_d i = (if i < 0 then 45 # decimal (nat (- i)) else decimal (nat i))"

text \<open>
  \<^verbatim>\<open>Orchestrator.Submit\<close>. The result is the returned error (\<open>None\<close> is \<^verbatim>\<open>nil\<close>), or a
  panic, and the state after the call.
\<close>

definition Submit :: "addr \<Rightarrow> Orchestrator \<Rightarrow> (panic + error option) \<times> Orchestrator" where
  "Submit job s =
     (case JobStore_Put job s of
        Inl e \<Rightarrow> (Inl e, s)
      | Inr s1 \<Rightarrow>
          (case try_send job s1 of
             Sent s2 \<Rightarrow> (Inr None, s2)
           | SendPanics \<Rightarrow> (Inl Panic, s1)
           | WouldBlock \<Rightarrow>
               (case heap s1 job of
                  None \<Rightarrow> (Inl Panic, s1)
                | Some j \<Rightarrow>
                    (Inr (Some (PlainError (runes ''job queue is full ('' @
                             Sprintf_d (int (MaxQueueSize s1)) @ runes '')''))),
                     s1\<lparr>heap := (heap s1)(job \<mapsto>
                            SetStatus StatusFailed (runes ''queue_full'') j)\<rparr>))))"

text \<open>A job as the ingest handler builds it, and an orchestrator with a queue of one slot.\<close>

definition example_job :: Job where
  "example_job =
     \<lparr>ID = runes ''0a1b'', DocID = runes ''doc-1'', UserID = runes ''u1'',
      Status = StatusQueued, Phase = runes ''queued'', Filename = runes ''notes.txt'',
      Title = [],
      Progress = \<lparr>TotalChunks = 0, ChunksProcessed = 0, FactsValid = 0, FactsStored = 0,
                  Errors = []\<rparr>,
      ContentHash = [], fileData = runes ''hello''\<rparr>"

definition example_orchestrator :: "addr list \<Rightarrow> Orchestrator" where
  "example_orchestrator q =
     \<lparr>heap = [0 \<mapsto> example_job], jobs = Map.empty, queue = q, MaxQueueSize = 1,
      receivers = 0, handed = [], closed = False\<rparr>"

section \<open>Retry policy\<close>

text \<open>
  \<^verbatim>\<open>errors.As(err, &retryErr)\<close>: some error of the chain is a \<^verbatim>\<open>*RetryableError\<close>.
\<close>

fun IsRetryable :: "error \<Rightarrow> bool" where
  "IsRetryable (PlainError m) = False"
| "IsRetryable (RetryableError status m) = True"
| "IsRetryable (WrapError m e m') = IsRetryable e"

text \<open>
  Go's \<^verbatim>\<open>int\<close>, \<^verbatim>\<open>int64\<close> and \<^verbatim>\<open>time.Duration\<close> are 64-bit two's-complement integers:
  they are modelled as integers, and \<open>wrap64\<close> is the wrap-around of an arithmetic
  result. A shift by 64 or more gives 0. \<^verbatim>\<open>rand.Int64N(n)\<close> panics unless \<open>n\<close> is
  positive and otherwise returns a value of \<open>[0, n)\<close>; the draw is the parameter \<open>r\<close>
  reduced modulo \<open>n\<close>, so that every value of the interval is the outcome for some \<open>r\<close>.
\<close>

definition wrap64 :: "int \<Rightarrow> int" where
  "wrap64 x = (x + 2 ^ 63) mod 2 ^ 64 - 2 ^ 63"

definition shl64 :: "int \<Rightarrow> nat \<Rightarrow> int" where
  "shl64 x k = (if k \<ge> 64 then 0 else wrap64 (x * 2 ^ k))"

definition uint64_of :: "int \<Rightarrow> nat" where
  "uint64_of x = nat (x mod 2 ^ 64)"

definition time_Second :: int where
  "time_Second = 1000000000"

definition rand_Int64N :: "nat \<Rightarrow> int \<Rightarrow> panic + int" where
  "rand_Int64N r n = (if n \<le> 0 then Inl Panic else Inr (int r mod n))"

definition Backoff :: "int \<Rightarrow> nat \<Rightarrow> panic + int" where
  "Backoff attempt r =
     (let base0 = wrap64 (shl64 1 (uint64_of attempt) * time_Second);
          base = (if base0 > wrap64 (30 * time_Second) then wrap64 (30 * time_Second) else base0)
      in case rand_Int64N r (base sdiv 2) of
           Inl p \<Rightarrow> Inl p
         | Inr jitter \<Rightarrow> Inr (wrap64 (base + jitter)))"

definition MaxRetries :: nat where
  "MaxRetries = 3"

section \<open>Document tree and chunks\<close>

text \<open>
  The tree of \<^verbatim>\<open>doctree\<close>: nodes are reached through pointers that the parsers never
  leave nil and never share, so a node is modelled as a finite tree value. The fields keep
  their names, with a suffix where two structures use the same name.
\<close>

datatype DocNode =
  DocNode (Title_n: gostring) (Text_n: gostring) (Page: int) (Children: "DocNode list")

record DocTree =
  Title_t :: gostring
  Children_t :: "DocNode list"

record Chunk =
  Text_c :: gostring
  Index :: int
  Breadcrumb :: "gostring list"
  PageStart :: int
  PageEnd :: int

section \<open>Chunker\<close>

record Config =
  ChunkSize :: int
  ChunkOverlap :: int
  MinChunk :: int

definition DefaultConfig :: Config where
  "DefaultConfig = \<lparr>ChunkSize = 1500, ChunkOverlap = 200, MinChunk = 100\<rparr>"

text \<open>
  \<^verbatim>\<open>getOverlapText\<close>: \<^verbatim>\<open>int(float64(targetTokens) / 1.33)\<close> truncates towards zero; as
  for \<^verbatim>\<open>EstimateTokens\<close> the float64 quotient is modelled by exact arithmetic.
\<close>

definition getOverlapText :: "gostring \<Rightarrow> int \<Rightarrow> gostring" where
  "getOverlapText text targetTokens =
     (let words = strings_Fields text;
          targetWords = (100 * targetTokens) sdiv 133
      in if targetWords \<le> 0 \<or> int (length words) \<le> targetWords then []
         else strings_Join (drop (length words - nat targetWords) words) (runes '' ''))"

text \<open>
  \<^verbatim>\<open>splitSentences\<close>: \<open>cur\<close> is the builder. The test \<^verbatim>\<open>text[i+1] == ' '\<close> reads the
  byte after a one-byte terminator, which is a space exactly when the next rune is.
\<close>

fun sentences_from :: "gostring \<Rightarrow> gostring \<Rightarrow> gostring list" where
  "sentences_from cur [] = (if cur \<noteq> [] then [strings_TrimSpace cur] else [])"
| "sentences_from cur (r # rs) =
     (if (r = 46 \<or> r = 33 \<or> r = 63) \<and> rs \<noteq> [] \<and> hd rs = 32
      then strings_TrimSpace (cur @ [r]) # sentences_from [] rs
      else sentences_from (cur @ [r]) rs)"

definition splitSentences :: "gostring \<Rightarrow> gostring list" where
  "splitSentences text = sentences_from [] text"

text \<open>
  The accumulation loops of \<^verbatim>\<open>splitBySentences\<close> and \<^verbatim>\<open>splitText\<close>: the state is
  \<^verbatim>\<open>result\<close>, the builder \<^verbatim>\<open>current\<close> and \<^verbatim>\<open>currentTokens\<close>; one step is one
  iteration of the loop body.
\<close>

type_synonym split_state = "gostring list \<times> gostring \<times> int"

definition flush_for :: "int \<Rightarrow> int \<Rightarrow> int \<Rightarrow> split_state \<Rightarrow> split_state" where
  "flush_for pieceTokens targetTokens overlapTokens st =
     (case st of (result, current, currentTokens) \<Rightarrow>
        if currentTokens + pieceTokens > targetTokens \<and> currentTokens > 0
        then let overlap = getOverlapText current overlapTokens
             in if overlap \<noteq> [] then (result @ [current], overlap, EstimateTokens overlap)
                else (result @ [current], [], 0)
        else st)"

definition write_piece :: "gostring \<Rightarrow> gostring \<Rightarrow> int \<Rightarrow> split_state \<Rightarrow> split_state" where
  "write_piece glue piece pieceTokens st =
     (case st of (result, current, currentTokens) \<Rightarrow>
        (result, (if length current > 0 then current @ glue else current) @ piece,
         currentTokens + pieceTokens))"

definition sentence_step :: "int \<Rightarrow> int \<Rightarrow> gostring \<Rightarrow> split_state \<Rightarrow> split_state" where
  "sentence_step targetTokens overlapTokens sent st =
     (let sentTokens = EstimateTokens sent
      in write_piece (runes '' '') sent sentTokens
           (flush_for sentTokens targetTokens overlapTokens st))"

definition finish_split :: "split_state \<Rightarrow> gostring list" where
  "finish_split st =
     (case st of (result, current, currentTokens) \<Rightarrow>
        if currentTokens > 0 then result @ [current] else result)"

definition splitBySentences :: "gostring \<Rightarrow> int \<Rightarrow> int \<Rightarrow> gostring list" where
  "splitBySentences text targetTokens overlapTokens =
     finish_split (fold (sentence_step targetTokens overlapTokens) (splitSentences text)
                     ([], [], 0))"

definition splitByParagraphs :: "gostring \<Rightarrow> gostring list" where
  "splitByParagraphs text =
     filter (\<lambda>p. p \<noteq> []) (map strings_TrimSpace (strings_Split text [10, 10]))"

definition paragraph_step :: "int \<Rightarrow> int \<Rightarrow> gostring \<Rightarrow> split_state \<Rightarrow> split_state" where
  "paragraph_step targetTokens overlapTokens para st =
     (let paraTokens = EstimateTokens para
      in if paraTokens > targetTokens
         then (case st of (result, current, currentTokens) \<Rightarrow>
                 let st1 = (if currentTokens > 0 then (result @ [current], [], 0) else st);
                     subParts = splitBySentences para targetTokens overlapTokens
                 in (case st1 of (result1, current1, currentTokens1) \<Rightarrow>
                       (result1 @ subParts, current1, currentTokens1)))
         else write_piece [10, 10] para paraTokens
                (flush_for paraTokens targetTokens overlapTokens st))"

definition splitText :: "gostring \<Rightarrow> int \<Rightarrow> int \<Rightarrow> gostring list" where
  "splitText text targetTokens overlapTokens =
     finish_split (fold (paragraph_step targetTokens overlapTokens) (splitByParagraphs text)
                     ([], [], 0))"

definition copyBreadcrumb :: "gostring list \<Rightarrow> gostring list" where
  "copyBreadcrumb bc = (if length bc = 0 then [] else bc)"

text \<open>The loop of \<^verbatim>\<open>walkNode\<close> over the parts of a split text; the state is the chunk list and the index.\<close>

definition emit_part ::
  "gostring list \<Rightarrow> Config \<Rightarrow> int \<Rightarrow> gostring \<Rightarrow> Chunk list \<times> int \<Rightarrow> Chunk list \<times> int" where
  "emit_part bc cfg page part st =
     (case st of (chunks, index) \<Rightarrow>
        if EstimateTokens part \<ge> MinChunk cfg
        then (chunks @ [\<lparr>Text_c = part, Index = index, Breadcrumb = copyBreadcrumb bc,
                          PageStart = page, PageEnd = page\<rparr>], index + 1)
        else st)"

fun walkNode ::
  "DocNode \<Rightarrow> gostring list \<Rightarrow> Config \<Rightarrow> Chunk list \<times> int \<Rightarrow> Chunk list \<times> int" where
  "walkNode (DocNode title text page children) breadcrumb cfg st =
     (let bc = breadcrumb @ (if title \<noteq> [] then [title] else []);
          st1 =
            (if text \<noteq> [] then
               (let tokens = EstimateTokens text
                in if tokens \<le> ChunkSize cfg
                   then (if tokens \<ge> MinChunk cfg
                         then (case st of (chunks, index) \<Rightarrow>
                                 (chunks @ [\<lparr>Text_c = text, Index = index,
                                             Breadcrumb = copyBreadcrumb bc,
                                             PageStart = page, PageEnd = page\<rparr>], index + 1))
                         else st)
                   else fold (emit_part bc cfg page)
                          (splitText text (ChunkSize cfg) (ChunkOverlap cfg)) st)
             else st)
      in fold (\<lambda>child. walkNode child bc cfg) children st1)"

definition ChunkTree :: "DocTree \<Rightarrow> Config \<Rightarrow> Chunk list" where
  "ChunkTree tree cfg0 =
     (let cfg1 = (if ChunkSize cfg0 \<le> 0 then cfg0\<lparr>ChunkSize := 1500\<rparr> else cfg0);
          cfg2 = (if ChunkOverlap cfg1 \<le> 0 then cfg1\<lparr>ChunkOverlap := 200\<rparr> else cfg1);
          cfg = (if MinChunk cfg2 \<le> 0 then cfg2\<lparr>MinChunk := 100\<rparr> else cfg2)
      in fst (fold (\<lambda>child. walkNode child [] cfg) (Children_t tree) ([], 0)))"



section \<open>LLM latency statistics\<close>

text \<open>
  \<^verbatim>\<open>LLMStats\<close>: times are nanoseconds, \<open>now\<close> is the reading of \<^verbatim>\<open>time.Now()\<close>
  in the call. Of the snapshot, the fields computed in integers are modelled (count, min,
  max); the mean and the percentiles are float64.
\<close>

record sample =
  timestamp :: int
  durationMs :: int

record LLMStats =
  samples :: "sample list"
  maxAge :: int

definition pruneLocked :: "int \<Rightarrow> LLMStats \<Rightarrow> LLMStats" where
  "pruneLocked now s =
     (let cutoff = now - maxAge s
      in s\<lparr>samples := filter (\<lambda>sm. \<not> timestamp sm < cutoff) (samples s)\<rparr>)"

definition Record :: "int \<Rightarrow> int \<Rightarrow> LLMStats \<Rightarrow> LLMStats" where
  "Record duration now s =
     (let d = (if duration < 0 then 0 else duration);
          s1 = pruneLocked now s
      in s1\<lparr>samples := samples s1 @ [\<lparr>timestamp = now, durationMs = d\<rparr>]\<rparr>)"

record StatsSnapshot =
  Count :: int
  MinMs :: int
  MaxMs :: int

definition Snapshot :: "int \<Rightarrow> LLMStats \<Rightarrow> StatsSnapshot \<times> LLMStats" where
  "Snapshot now s =
     (let s1 = pruneLocked now s
      in if length (samples s1) = 0 then (\<lparr>Count = 0, MinMs = 0, MaxMs = 0\<rparr>, s1)
         else let values = sort (map durationMs (samples s1))
              in (\<lparr>Count = int (length values), MinMs = hd values, MaxMs = last values\<rparr>, s1))"

section \<open>LLM client\<close>

text \<open>
  The exchange with the provider is the environment's: \<open>HttpFailed\<close> is an error of
  \<^verbatim>\<open>httpClient.Do\<close>, \<open>HttpResponse\<close> a response with its status and the outcome of
  reading its body. The two \<^verbatim>\<open>json.Unmarshal\<close> calls are parameters as well.
\<close>

datatype http_result = HttpFailed error | HttpResponse int "error + gostring"

record anthropicResponse =
  Content :: "(gostring \<times> gostring) list"
  Error_r :: "(gostring \<times> gostring) option"

record json_codec =
  decode_response :: "gostring \<Rightarrow> error + anthropicResponse"
  decode_facts :: "gostring \<Rightarrow> error + Fact list"

text \<open>
  \<^verbatim>\<open>truncate(s, n)\<close> cuts at \<open>n\<close> bytes. The model cuts before the rune that crosses
  the limit, where Go keeps the first bytes of that rune; the cut texts only appear in
  error messages.
\<close>

fun byte_prefix :: "nat \<Rightarrow> gostring \<Rightarrow> gostring" where
  "byte_prefix n [] = []"
| "byte_prefix n (r # rs) =
     (if utf8_RuneLen r \<le> n then r # byte_prefix (n - utf8_RuneLen r) rs else [])"

definition truncate :: "gostring \<Rightarrow> nat \<Rightarrow> gostring" where
  "truncate s n = (if len s \<le> n then s else byte_prefix n s @ runes ''...'')"

text \<open>
  \<^verbatim>\<open>stripCodeBlock\<close>: the expression \<^verbatim>\<open>(?s)^```(?:json)?\s*(.*?)\s*```$\<close> matches a
  trimmed text that starts and ends with a fence; the first group is what lies between
  the opening fence, with its optional tag, and the closing fence, without the
  \<^verbatim>\<open>\s\<close> runes at its ends.
\<close>

definition stripCodeBlock :: "gostring \<Rightarrow> gostring" where
  "stripCodeBlock s0 =
     (let s = strings_TrimSpace s0;
          fence = runes ''```'';
          a = drop 3 s;
          b = (if take 4 a = runes ''json'' then drop 4 a else a)
      in if take 3 s = fence \<and> length b \<ge> 3 \<and> drop (length b - 3) b = fence
         then rev (dropWhile perl_space (rev (dropWhile perl_space (take (length b - 3) b))))
         else s)"

definition ExtractFacts :: "json_codec \<Rightarrow> http_result \<Rightarrow> error + Fact list" where
  "ExtractFacts js exchange =
     (case exchange of
        HttpFailed e \<Rightarrow> Inl (WrapError (runes ''claude api: '') e [])
      | HttpResponse status (Inl e) \<Rightarrow> Inl (WrapError (runes ''read response: '') e [])
      | HttpResponse status (Inr respBody) \<Rightarrow>
          if status = 429 \<or> status \<ge> 500 then Inl (RetryableError status respBody)
          else if status \<noteq> 200
            then Inl (PlainError (runes ''claude api status '' @ Sprintf_d status @
                                  runes '': '' @ respBody))
          else
            (case decode_response js respBody of
               Inl e \<Rightarrow> Inl (WrapError (runes ''decode response: '') e [])
             | Inr apiResp \<Rightarrow>
                 (case Error_r apiResp of
                    Some (ty, msg) \<Rightarrow>
                      Inl (PlainError (runes ''claude error: '' @ ty @ runes '': '' @ msg))
                  | None \<Rightarrow>
                      if length (Content apiResp) = 0
                      then Inl (PlainError (runes ''empty response from claude''))
                      else
                        let text = stripCodeBlock (snd (hd (Content apiResp)))
                        in (case decode_facts js text of
                              Inl e \<Rightarrow>
                                Inl (WrapError (runes ''parse facts json: '') e
                                       (runes '' (raw: '' @ truncate text 200 @ runes '')''))
                            | Inr facts \<Rightarrow> Inr facts))))"

text \<open>
  A call of \<^verbatim>\<open>ExtractFacts\<close> in a program state that holds the latency statistics: the
  client has the fields \<^verbatim>\<open>apiKey\<close>, \<^verbatim>\<open>model\<close> and \<^verbatim>\<open>httpClient\<close> and the function
  touches nothing else, so the statistics come back as they went in.
\<close>

definition call_ExtractFacts ::
  "json_codec \<Rightarrow> http_result \<Rightarrow> LLMStats \<Rightarrow> (error + Fact list) \<times> LLMStats" where
  "call_ExtractFacts js exchange stats = (ExtractFacts js exchange, stats)"

text \<open>\<^verbatim>\<open>err.Error()\<close>.\<close>

fun Error_string :: "error \<Rightarrow> gostring" where
  "Error_string (PlainError m) = m"
| "Error_string (RetryableError status m) =
     runes ''retryable error (status '' @ Sprintf_d status @ runes ''): '' @ truncate m 200"
| "Error_string (WrapError pre e post) = pre @ Error_string e @ post"

section \<open>Worker pipeline\<close>

text \<open>
  What \<^verbatim>\<open>Process\<close> reaches outside the program is the environment: the parsers, the
  SHA-256 of \<^verbatim>\<open>ContentHashHex\<close> (not among the sources), the pathstore client, the
  exchange with the LLM for the request of chunk \<open>i\<close> at attempt \<open>a\<close>, whether the
  context is cancelled during the backoff after that attempt, the random draws and the
  generated ULIDs. The request and node bodies are not modelled: a request is identified
  by its chunk, a write by its key. Logging is left out.
\<close>

record ListChildrenResponse =
  Key :: gostring

record env =
  codec :: json_codec
  http :: "nat \<Rightarrow> nat \<Rightarrow> http_result"
  cancelled :: "nat \<Rightarrow> nat \<Rightarrow> bool"
  ctx_Err :: error
  draw :: "nat \<Rightarrow> nat \<Rightarrow> nat"
  Parse :: "Parser \<Rightarrow> gostring \<Rightarrow> gostring \<Rightarrow> error + DocTree"
  ContentHashHex :: "gostring \<Rightarrow> gostring"
  ListChildren :: "gostring \<Rightarrow> int \<Rightarrow> error + ListChildrenResponse list"
  PutNode :: "gostring \<Rightarrow> error option"
  generateULID :: "nat \<Rightarrow> gostring"

text \<open>The calls that leave the program, in the order in which they are made.\<close>

datatype event =
    EvListChildren gostring int
  | EvChunkTree
  | EvExtractFacts nat nat
  | EvPutNode gostring

text \<open>
  The worker. The two semaphores bound how many calls are in flight and do not change
  what is called; the model runs the calls of the goroutines one after the other, in the
  order of the chunks and of the facts.
\<close>

record Worker =
  chunkCfg :: Config
  maxConcurrentExtract :: int
  maxConcurrentStore :: int

record chunkResult =
  facts :: "Fact list"
  err :: "error option"
  idx :: nat

text \<open>
  The retry loop of one chunk, from attempt \<open>attempt\<close> on; \<open>prev\<close> holds \<^verbatim>\<open>facts\<close> and
  \<^verbatim>\<open>lastErr\<close> of the attempt before. The result is what the goroutine sends to the
  \<^verbatim>\<open>results\<close> channel, unless \<^verbatim>\<open>Backoff\<close> panics.
\<close>

function extract_loop ::
  "env \<Rightarrow> nat \<Rightarrow> nat \<Rightarrow> error + Fact list \<Rightarrow> (panic + chunkResult) \<times> event list" where
  "extract_loop e i attempt prev =
     (if attempt < MaxRetries then
        (case ExtractFacts (codec e) (http e i attempt) of
           Inr fs \<Rightarrow> (Inr \<lparr>facts = fs, err = None, idx = i\<rparr>, [EvExtractFacts i attempt])
         | Inl lastErr \<Rightarrow>
             if \<not> IsRetryable lastErr
             then (Inr \<lparr>facts = [], err = Some lastErr, idx = i\<rparr>, [EvExtractFacts i attempt])
             else
               (case Backoff (int attempt) (draw e i attempt) of
                  Inl p \<Rightarrow> (Inl p, [EvExtractFacts i attempt])
                | Inr d \<Rightarrow>
                    if cancelled e i attempt
                    then (Inr \<lparr>facts = [], err = Some (ctx_Err e), idx = i\<rparr>,
                          [EvExtractFacts i attempt])
                    else
                      (case extract_loop e i (attempt + 1) (Inl lastErr) of
                         (res, tr) \<Rightarrow> (res, EvExtractFacts i attempt # tr))))
      else
        (case prev of
           Inl lastErr \<Rightarrow> (Inr \<lparr>facts = [], err = Some lastErr, idx = i\<rparr>, [])
         | Inr fs \<Rightarrow> (Inr \<lparr>facts = fs, err = None, idx = i\<rparr>, [])))"
  by pat_completeness auto
termination
  by (relation "measure (\<lambda>(e, i, attempt, prev). MaxRetries - attempt)") auto

text \<open>The fan-out over the chunks \<open>i, i + 1, ...\<close>: the results in the order of the chunks.\<close>

fun extract_chunks ::
  "env \<Rightarrow> nat \<Rightarrow> Chunk list \<Rightarrow> (panic + chunkResult list) \<times> event list" where
  "extract_chunks e i [] = (Inr [], [])"
| "extract_chunks e i (c # cs) =
     (case extract_loop e i 0 (Inr []) of
        (Inl p, tr) \<Rightarrow> (Inl p, tr)
      | (Inr r, tr) \<Rightarrow>
          (case extract_chunks e (i + 1) cs of
             (Inl p, tr') \<Rightarrow> (Inl p, tr @ tr')
           | (Inr rs, tr') \<Rightarrow> (Inr (r # rs), tr @ tr')))"

text \<open>
  The facts of a result that \<^verbatim>\<open>ValidateFact\<close> accepts, as it leaves them behind the
  pointer.
\<close>

definition valid_facts :: "Fact list \<Rightarrow> Fact list" where
  "valid_facts fs =
     List.map_filter
       (\<lambda>f. case ValidateFact (Some f) of (True, Some f') \<Rightarrow> Some f' | _ \<Rightarrow> None) fs"

text \<open>One iteration of the loop that collects the results.\<close>

definition collect_step ::
  "chunkResult \<Rightarrow> Job \<times> Fact list \<times> bool \<Rightarrow> Job \<times> Fact list \<times> bool" where
  "collect_step r st =
     (case st of (job, allFacts, hadErrors) \<Rightarrow>
        let job1 = IncrChunksProcessed job
        in (case err r of
              Some e \<Rightarrow>
                (AddError (runes ''chunk '' @ Sprintf_d (int (idx r)) @ runes '': '' @
                           Error_string e) job1,
                 allFacts, True)
            | None \<Rightarrow> (job1, allFacts @ valid_facts (facts r), hadErrors)))"

text \<open>
  Where \<^verbatim>\<open>Process\<close> stands after the results are in: it has returned, or it goes on to
  store the facts with the flag \<^verbatim>\<open>hadErrors\<close>.
\<close>

datatype flow = Returned Job | Proceeds Job "Fact list" bool

text \<open>
  The collection of the results and the test after it; \<open>results\<close> are the results in
  the order in which the channel delivers them.
\<close>

definition collect_results :: "chunkResult list \<Rightarrow> Job \<Rightarrow> flow" where
  "collect_results results job0 =
     (case fold collect_step results (job0, [], False) of
        (job1, allFacts, hadErrors) \<Rightarrow>
          let job2 = AddFacts (int (length allFacts)) 0 job1
          in if length allFacts = 0 \<and> hadErrors
             then Returned (SetStatus StatusFailed (runes ''extracting'') job2)
             else Proceeds job2 allFacts hadErrors)"

text \<open>The category table of the fact model.\<close>

record CategoryInfo =
  PathTemplate :: gostring
  MemoryType :: gostring
  DefaultSal :: real

definition CategoryMap :: "gostring \<rightharpoonup> CategoryInfo" where
  "CategoryMap = map_of
     [(runes ''entity_fact'',
         \<lparr>PathTemplate = runes ''entities/{entity}/facts'', MemoryType = runes ''semantic'',
          DefaultSal = 0.7\<rparr>),
      (runes ''preference'',
         \<lparr>PathTemplate = runes ''entities/{entity}/preferences'',
          MemoryType = runes ''semantic'', DefaultSal = 0.8\<rparr>),
      (runes ''topic_knowledge'',
         \<lparr>PathTemplate = runes ''topics/{topic}'', MemoryType = runes ''semantic'',
          DefaultSal = 0.5\<rparr>),
      (runes ''procedure'',
         \<lparr>PathTemplate = runes ''procedures/{topic}'', MemoryType = runes ''procedural'',
          DefaultSal = 0.6\<rparr>)]"

text \<open>\<^verbatim>\<open>strings.Replace(s, old, new, 1)\<close> for a non-empty \<open>old\<close>: the first occurrence is replaced.\<close>

fun replace_first :: "gostring \<Rightarrow> gostring \<Rightarrow> gostring \<Rightarrow> gostring" where
  "replace_first [] old new = []"
| "replace_first (x # xs) old new =
     (if old \<noteq> [] \<and> take (length old) (x # xs) = old
      then new @ drop (length old) (x # xs)
      else x # replace_first xs old new)"

definition extractULID :: "gostring \<Rightarrow> gostring" where
  "extractULID path =
     (let parts = strings_Split path (runes ''/'')
      in if length parts > 0 then last parts else path)"

text \<open>
  \<^verbatim>\<open>storeFact\<close>; \<open>n\<close> numbers the call, for the ULID it generates. The result is the
  path and the error, and the write made.
\<close>

definition storeFact ::
  "env \<Rightarrow> Fact \<Rightarrow> gostring \<Rightarrow> gostring \<Rightarrow> nat \<Rightarrow> (gostring \<times> error option) \<times> event list" where
  "storeFact e f prefix docID n =
     (case CategoryMap (Category f) of
        None \<Rightarrow> (([], Some (PlainError (runes ''unknown category: '' @ Category f))), [])
      | Some info \<Rightarrow>
          let entity = (let s = Slugify (Entity f) in if s = [] then runes ''general'' else s);
              topics = filter (\<lambda>s. s \<noteq> []) (map Slugify (Topics f));
              ulid = generateULID e n
          in if Category f = runes ''entity_fact'' \<or> Category f = runes ''preference''
             then let tmpl = replace_first (PathTemplate info) (runes ''{entity}'') entity;
                      path = prefix @ runes ''/'' @ tmpl @ runes ''/'' @ ulid
                  in ((path, PutNode e path), [EvPutNode path])
             else if Category f = runes ''topic_knowledge'' \<or> Category f = runes ''procedure''
             then let topic = (if length topics > 0 then hd topics else runes ''general'');
                      tmpl = replace_first (PathTemplate info) (runes ''{topic}'') topic;
                      path = prefix @ runes ''/'' @ tmpl @ runes ''/'' @ ulid
                  in ((path, PutNode e path), [EvPutNode path])
             else (([], Some (PlainError (runes ''unexpected category: '' @ Category f))), []))"

text \<open>
  The store of one fact with its manifest entry, and the bookkeeping of its result:
  the state is the job, \<^verbatim>\<open>storedCount\<close>, \<^verbatim>\<open>hadErrors\<close> and the writes so far.
\<close>

type_synonym store_state = "Job \<times> int \<times> bool \<times> event list"

definition store_step ::
  "env \<Rightarrow> gostring \<Rightarrow> gostring \<Rightarrow> gostring \<Rightarrow> nat \<times> Fact \<Rightarrow> store_state \<Rightarrow> store_state" where
  "store_step e prefix docPrefix docID nf st =
     (case st of (job, storedCount, hadErrors, tr) \<Rightarrow>
        (case storeFact e (snd nf) prefix docID (fst nf) of
           ((factPath, Some er), tr1) \<Rightarrow>
             (AddError (runes ''store '' @ factPath @ runes '': '' @ Error_string er) job,
              storedCount, True, tr @ tr1)
         | ((factPath, None), tr1) \<Rightarrow>
             let manifestPath = docPrefix @ runes ''/facts/'' @ extractULID factPath
             in (job, storedCount + 1, hadErrors, tr @ tr1 @ [EvPutNode manifestPath])))"

text \<open>Phase 4 of \<^verbatim>\<open>Process\<close> and the rest: the facts, the metadata, the hash index, the last status.\<close>

definition process_store ::
  "env \<Rightarrow> Job \<Rightarrow> Fact list \<Rightarrow> bool \<Rightarrow> Job \<times> event list" where
  "process_store e job0 allFacts hadErrors0 =
     (let job1 = SetStatus StatusStoring (runes ''storing'') job0;
          prefix = runes ''memory/users/'' @ UserID job1;
          docPrefix = runes ''memory/users/'' @ UserID job1 @ runes ''/documents/'' @ DocID job1
      in case fold (store_step e prefix docPrefix (DocID job1))
                (zip [0..<length allFacts] allFacts) (job1, 0, hadErrors0, []) of
           (job2, storedCount, hadErrors, tr) \<Rightarrow>
             let job3 = AddFacts 0 storedCount job2;
                 metaPath = docPrefix @ runes ''/meta'';
                 job4 = (case PutNode e metaPath of
                           Some metaErr \<Rightarrow>
                             AddError (runes ''meta: '' @ Error_string metaErr) job3
                         | None \<Rightarrow> job3);
                 hashPath = runes ''memory/users/'' @ UserID job4 @
                            runes ''/documents/by_hash/'' @ ContentHash job4 @ runes ''/'' @
                            DocID job4;
                 job5 = (if hadErrors \<and> storedCount > 0
                         then SetStatus StatusPartial (runes ''done'') job4
                         else if hadErrors then SetStatus StatusFailed (runes ''storing'') job4
                         else SetStatus StatusCompleted (runes ''done'') job4)
             in (job5, tr @ [EvPutNode metaPath, EvPutNode hashPath]))"

text \<open>Phases 2 and 3 of \<^verbatim>\<open>Process\<close>; \<open>tr\<close> are the calls made before.\<close>

definition process_chunks ::
  "env \<Rightarrow> Worker \<Rightarrow> Job \<Rightarrow> DocTree \<Rightarrow> event list \<Rightarrow> panic + (Job \<times> event list)" where
  "process_chunks e w job0 tree tr =
     (let job1 = SetStatus StatusChunking (runes ''chunking'') job0;
          chunks = ChunkTree tree (chunkCfg w);
          job2 = SetTotalChunks (int (length chunks)) job1
      in if length chunks = 0
         then Inr (SetStatus StatusFailed (runes ''chunking'')
                     (AddError (runes ''no extractable content'') job2),
                   tr @ [EvChunkTree])
         else
           let job3 = SetStatus StatusExtracting (runes ''extracting'') job2
           in (case extract_chunks e 0 chunks of
                 (Inl p, tr2) \<Rightarrow> Inl p
               | (Inr results, tr2) \<Rightarrow>
                   (case collect_results results job3 of
                      Returned job4 \<Rightarrow> Inr (job4, tr @ EvChunkTree # tr2)
                    | Proceeds job4 allFacts hadErrors \<Rightarrow>
                        (case process_store e job4 allFacts hadErrors of
                           (job5, tr3) \<Rightarrow> Inr (job5, tr @ EvChunkTree # tr2 @ tr3)))))"

definition hashPrefix :: "Job \<Rightarrow> gostring" where
  "hashPrefix job =
     runes ''memory/users/'' @ UserID job @ runes ''/documents/by_hash/'' @ ContentHash job"

text \<open>\<^verbatim>\<open>checkDuplicate\<close>: the three results, and the call made.\<close>

definition checkDuplicate ::
  "env \<Rightarrow> Job \<Rightarrow> (bool \<times> gostring \<times> error option) \<times> event list" where
  "checkDuplicate e job =
     (case ListChildren e (hashPrefix job) 1 of
        Inl er \<Rightarrow> ((False, [], Some er), [EvListChildren (hashPrefix job) 1])
      | Inr children \<Rightarrow>
          if length children > 0
          then ((True, last (strings_Split (Key (hd children)) (runes ''.'')), None),
                [EvListChildren (hashPrefix job) 1])
          else ((False, [], None), [EvListChildren (hashPrefix job) 1]))"

fun flatten_node :: "DocNode \<Rightarrow> gostring \<Rightarrow> gostring" where
  "flatten_node (DocNode title text page children) sb =
     fold flatten_node children
       (if text \<noteq> [] then (if length sb > 0 then sb @ [10] else sb) @ text else sb)"

definition flattenTreeText :: "DocTree \<Rightarrow> gostring" where
  "flattenTreeText tree = fold flatten_node (Children_t tree) []"

text \<open>
  The job as \<^verbatim>\<open>Process\<close> holds it at the duplicate check, after it has parsed the file
  into \<open>tree0\<close>: status parsing, and the hash of the text of the tree.
\<close>

definition titled :: "Job \<Rightarrow> DocTree \<Rightarrow> DocTree" where
  "titled job tree0 = (if Title job \<noteq> [] then tree0\<lparr>Title_t := Title job\<rparr> else tree0)"

definition hashed :: "env \<Rightarrow> Job \<Rightarrow> DocTree \<Rightarrow> Job" where
  "hashed e job tree0 =
     (SetStatus StatusParsing (runes ''parsing'') job)
       \<lparr>ContentHash := ContentHashHex e (flattenTreeText (titled job tree0))\<rparr>"

definition Process :: "env \<Rightarrow> Worker \<Rightarrow> Job \<Rightarrow> panic + (Job \<times> event list)" where
  "Process e w job0 =
     (let job1 = SetStatus StatusParsing (runes ''parsing'') job0
      in case ForFile (Filename job1) of
           Inl er \<Rightarrow>
             Inr (SetStatus StatusFailed (runes ''parsing'') (AddError (Error_string er) job1), [])
         | Inr p \<Rightarrow>
             (case Parse e p (fileData job1) (Filename job1) of
                Inl er \<Rightarrow>
                  Inr (SetStatus StatusFailed (runes ''parsing'')
                         (AddError (runes ''parse: '' @ Error_string er) job1), [])
              | Inr tree0 \<Rightarrow>
                  let tree = titled job1 tree0;
                      parsedText = flattenTreeText tree;
                      job2 = job1\<lparr>ContentHash := ContentHashHex e parsedText\<rparr>
                  in (case checkDuplicate e job2 of
                        ((exists, existingDocID, er), tr) \<Rightarrow>
                          if er = None \<and> exists
                          then Inr (SetStatus StatusDupSkipped (runes ''dedup'') job2, tr)
                          else process_chunks e w job2 tree tr)))"

text \<open>
  Of a list of chunk results: whether some extraction failed, whether all did, and the
  validated facts of those that did not.
\<close>

definition any_failed :: "chunkResult list \<Rightarrow> bool" where
  "any_failed rs = list_ex (\<lambda>r. err r \<noteq> None) rs"

definition all_failed :: "chunkResult list \<Rightarrow> bool" where
  "all_failed rs = list_all (\<lambda>r. err r \<noteq> None) rs"

definition accumulated :: "chunkResult list \<Rightarrow> Fact list" where
  "accumulated rs = concat (map (\<lambda>r. valid_facts (facts r)) (filter (\<lambda>r. err r = None) rs))"

text \<open>
  An environment for the examples: the parser puts the bytes of the file into one node,
  the listing under the hash prefix has the given outcome, every write succeeds and the
  LLM is out of reach.
\<close>

definition example_env :: "(error + ListChildrenResponse list) \<Rightarrow> env" where
  "example_env listing =
     \<lparr>codec = \<lparr>decode_response = (\<lambda>b. Inl (PlainError (runes ''unexpected end of JSON input''))),
               decode_facts = (\<lambda>b. Inl (PlainError (runes ''unexpected end of JSON input'')))\<rparr>,
      http = (\<lambda>i a. HttpFailed (PlainError (runes ''connection refused''))),
      cancelled = (\<lambda>i a. False),
      ctx_Err = PlainError (runes ''context canceled''),
      draw = (\<lambda>i a. 0),
      Parse = (\<lambda>p bytes name. Inr \<lparr>Title_t = name, Children_t = [DocNode [] bytes 0 []]\<rparr>),
      ContentHashHex = (\<lambda>s. runes ''2cf24dba''),
      ListChildren = (\<lambda>k n. listing),
      PutNode = (\<lambda>k. None),
      generateULID = (\<lambda>n. runes ''01J'' @ decimal n)\<rparr>"

definition example_worker :: Worker where
  "example_worker = \<lparr>chunkCfg = DefaultConfig, maxConcurrentExtract = 4, maxConcurrentStore = 8\<rparr>"

chapter \<open>Properties\<close>

section \<open>Facts about the string functions\<close>

lemma runes_Nil [simp]: "runes [] = []"
  by (simp add: runes_def)

lemma floor_133: "\<lfloor>real n * 1.33\<rfloor> = (133 * int n) div 100"
proof -
  have "real n * 1.33 = real_of_int (133 * int n) / real_of_int 100"
    by simp
  then show ?thesis
    by (simp only: floor_divide_of_int_eq)
qed

section \<open>Claims about the token estimator\<close>

text \<open>
  C2, as stated: estimateTokens(s) equals round(wordCount(s) * 1.33). The code truncates
  instead of rounding: the two-word string "a b" has 2.66 words-times-1.33, which rounds to
  3, and \<^verbatim>\<open>EstimateTokens\<close> returns 2.
\<close>

theorem C2_round_counterexample:
  "EstimateTokens (runes ''a b'') \<noteq> round (real (wordCount (runes ''a b'')) * 1.33) \<and>
   EstimateTokens (runes ''a b'') = 2 \<and>
   round (real (wordCount (runes ''a b'')) * 1.33) = 3"
proof -
  have f: "strings_Fields (runes ''a b'') = [[97], [98]]"
    by (simp add: strings_Fields_def runes_def unicode_IsSpace_def)
  have r: "round (real (2::nat) * 1.33) = 3"
    by (simp add: round_def floor_eq_iff)
  have "EstimateTokens (runes ''a b'') = 2"
    unfolding EstimateTokens_def f by (simp add: runes_def)
  moreover have "round (real (wordCount (runes ''a b'')) * 1.33) = 3"
    unfolding wordCount_def f using r by simp
  ultimately show ?thesis by simp
qed

text \<open>
  C2, amended: estimateTokens(s) is 0 for the empty string and otherwise the larger of 1
  and the integer part (floor, not rounding) of wordCount(s) * 1.33; so it is at least 1
  whenever s is non-empty.
\<close>

theorem C2_estimate_tokens_floor:
  "EstimateTokens s = (if s = [] then 0 else max 1 \<lfloor>real (wordCount s) * 1.33\<rfloor>) \<and>
   (s \<noteq> [] \<longrightarrow> 1 \<le> EstimateTokens s)"
proof -
  define w where "w = (133 * int (wordCount s)) div 100"
  have fl: "\<lfloor>real (wordCount s) * 1.33\<rfloor> = w"
    unfolding w_def by (rule floor_133)
  have e: "EstimateTokens s = (if s = [] then 0 else if w < 1 then 1 else w)"
    unfolding EstimateTokens_def wordCount_def w_def Let_def by simp
  show ?thesis
    unfolding fl e by (simp add: max_def)
qed

theorem C2_estimate_tokens_floor_witness:
  "EstimateTokens (runes ''a b c'') = max 1 \<lfloor>real (wordCount (runes ''a b c'')) * 1.33\<rfloor> \<and>
   runes ''a b c'' \<noteq> [] \<and> 1 \<le> EstimateTokens (runes ''a b c'')"
  using C2_estimate_tokens_floor [of "runes ''a b c''"]
  by (simp add: runes_def)

section \<open>Parser registry: \<^verbatim>\<open>ForFile\<close> against \<^verbatim>\<open>IsSupportedExtension\<close>\<close>

lemma supported_iff:
  "IsSupportedExtension f \<longleftrightarrow>
     strings_ToLower (filepath_Ext f) \<in>
       {runes ''.txt'', runes ''.md'', runes ''.csv'', runes ''.html'', runes ''.htm'',
        runes ''.pdf'', runes ''.docx''}"
  by (simp add: IsSupportedExtension_def SupportedExtensions_def Let_def)

lemma forfile_ok_iff:
  "isl (ForFile f) \<longleftrightarrow>
     strings_ToLower (filepath_Ext f) \<notin>
       {runes ''.txt'', runes ''.md'', runes ''.markdown'', runes ''.csv'', runes ''.html'',
        runes ''.htm'', runes ''.pdf'', runes ''.docx''}"
  by (simp add: ForFile_def Let_def)

lemma markdown_not_listed:
  "runes ''.markdown'' \<notin>
     {runes ''.txt'', runes ''.md'', runes ''.csv'', runes ''.html'', runes ''.htm'',
      runes ''.pdf'', runes ''.docx''}"
  by (simp add: runes_def)

text \<open>
  C10: whenever \<^verbatim>\<open>IsSupportedExtension\<close> accepts a filename, \<^verbatim>\<open>ForFile\<close> returns a
  parser and no error. The converse fails: \<^verbatim>\<open>ForFile\<close> returns a parser while
  \<^verbatim>\<open>IsSupportedExtension\<close> is false exactly when the lower-cased extension is
  \<^verbatim>\<open>.markdown\<close>.
\<close>

theorem C10_registry_disagree_markdown:
  "(IsSupportedExtension f \<longrightarrow> (\<exists>p. ForFile f = Inr p)) \<and>
   (((\<exists>p. ForFile f = Inr p) \<and> \<not> IsSupportedExtension f) \<longleftrightarrow>
      strings_ToLower (filepath_Ext f) = runes ''.markdown'')"
proof -
  have ok: "(\<exists>p. ForFile f = Inr p) \<longleftrightarrow> \<not> isl (ForFile f)"
    by (cases "ForFile f") auto
  show ?thesis
    unfolding ok forfile_ok_iff supported_iff
    using markdown_not_listed by auto
qed

theorem C10_registry_disagree_markdown_witness:
  "IsSupportedExtension (runes ''notes.MD'') \<and>
   ForFile (runes ''notes.MD'') = Inr MarkdownParser \<and>
   ForFile (runes ''docs/README.markdown'') = Inr MarkdownParser \<and>
   \<not> IsSupportedExtension (runes ''docs/README.markdown'') \<and>
   strings_ToLower (filepath_Ext (runes ''docs/README.markdown'')) = runes ''.markdown''"
proof -
  have e1: "strings_ToLower (filepath_Ext (runes ''notes.MD'')) = runes ''.md''"
    by (simp add: runes_def filepath_Ext_def strings_ToLower_def unicode_ToLower_def)
  have e2: "strings_ToLower (filepath_Ext (runes ''docs/README.markdown'')) = runes ''.markdown''"
    by (simp add: runes_def filepath_Ext_def strings_ToLower_def unicode_ToLower_def)
  have s1: "IsSupportedExtension (runes ''notes.MD'')"
    unfolding supported_iff e1 by simp
  have f1: "ForFile (runes ''notes.MD'') = Inr MarkdownParser"
    unfolding ForFile_def e1 Let_def by (simp add: runes_def)
  have f2: "ForFile (runes ''docs/README.markdown'') = Inr MarkdownParser"
    unfolding ForFile_def e2 Let_def by (simp add: runes_def)
  from C10_registry_disagree_markdown [of "runes ''notes.MD''"] s1
  have "\<exists>p. ForFile (runes ''notes.MD'') = Inr p" by blast
  moreover from C10_registry_disagree_markdown [of "runes ''docs/README.markdown''"] e2
  have "\<not> IsSupportedExtension (runes ''docs/README.markdown'')" by blast
  ultimately show ?thesis using s1 f1 f2 e2 by blast
qed

section \<open>Slug normaliser\<close>

fun no_double_dash :: "gostring \<Rightarrow> bool" where
  "no_double_dash (a # b # rs) = (\<not> (a = 45 \<and> b = 45) \<and> no_double_dash (b # rs))"
| "no_double_dash rs = True"

lemma slug_char_not_space: "slug_char r \<Longrightarrow> \<not> unicode_IsSpace r"
  by (auto simp: slug_char_def unicode_IsSpace_def)

lemma slug_char_lower: "slug_char r \<Longrightarrow> unicode_ToLower r = r"
  by (auto simp: slug_char_def unicode_ToLower_def)

lemma slug_char_ascii: "slug_char r \<Longrightarrow> utf8_RuneLen r = 1"
  by (auto simp: slug_char_def utf8_RuneLen_def)

lemma len_slug_chars: "list_all slug_char s \<Longrightarrow> len s = length s"
  by (induction s) (auto simp: len_def slug_char_ascii)

lemma no_double_dash_tl: "no_double_dash (a # t) \<Longrightarrow> no_double_dash t"
  by (cases t) auto

lemma no_double_dash_take: "no_double_dash t \<Longrightarrow> no_double_dash (take n t)"
proof (induction t arbitrary: n rule: no_double_dash.induct)
  case (1 a b rs)
  show ?case
  proof (cases n)
    case 0
    then show ?thesis by simp
  next
    case (Suc m)
    note n = this
    show ?thesis
    proof (cases m)
      case 0
      with n show ?thesis by simp
    next
      case (Suc k)
      from 1 have "no_double_dash (take m (b # rs))" by simp
      with 1 n Suc show ?thesis by simp
    qed
  qed
qed (simp_all add: take_Cons split: nat.split)

lemma no_double_dash_dropWhile: "no_double_dash t \<Longrightarrow> no_double_dash (dropWhile P t)"
  by (induction t) (auto dest: no_double_dash_tl)

lemma dropWhile_none: "\<forall>x \<in> set xs. \<not> P x \<Longrightarrow> dropWhile P xs = xs"
  by (cases xs) auto

lemma trim_right_take:
  "rev (dropWhile P (rev t)) = take (length t - length (takeWhile P (rev t))) t"
  by (simp add: dropWhile_eq_drop rev_drop)

lemma collapse_dashes_hd: "\<exists>ys. collapse_dashes (b # rs) = b # ys"
  by (induction rs arbitrary: b) auto

lemma no_double_dash_collapse: "no_double_dash (collapse_dashes s)"
proof (induction s rule: collapse_dashes.induct)
  case (1 a b rs)
  obtain ys where ys: "collapse_dashes (b # rs) = b # ys"
    using collapse_dashes_hd by blast
  with 1 show ?case by auto
qed simp_all

lemma collapse_dashes_id: "no_double_dash t \<Longrightarrow> collapse_dashes t = t"
  by (induction t rule: collapse_dashes.induct) auto

lemma list_all_collapse: "list_all P s \<Longrightarrow> list_all P (collapse_dashes s)"
  by (induction s rule: collapse_dashes.induct) auto

lemma list_all_dropWhile: "list_all P s \<Longrightarrow> list_all P (dropWhile Q s)"
  by (induction s) auto

lemma list_all_trim: "list_all P s \<Longrightarrow> list_all P (strings_Trim s c)"
  by (simp add: strings_Trim_def list_all_dropWhile)

lemma no_double_dash_trim: "no_double_dash s \<Longrightarrow> no_double_dash (strings_Trim s c)"
  unfolding strings_Trim_def trim_right_take
  by (intro no_double_dash_take no_double_dash_dropWhile)

lemma trim_right_hd:
  assumes "t = [] \<or> \<not> P (hd t)"
  shows "rev (dropWhile P (rev t)) = [] \<or> \<not> P (hd (rev (dropWhile P (rev t))))"
proof (cases "rev (dropWhile P (rev t)) = []")
  case False
  have "rev (dropWhile P (rev t)) = take (length t - length (takeWhile P (rev t))) t"
    by (rule trim_right_take)
  with False have "hd (rev (dropWhile P (rev t))) = hd t"
    by (metis hd_take length_greater_0_conv take_eq_Nil2 not_gr_zero)
  with assms False show ?thesis by auto
qed simp

lemma trim_ends:
  "strings_Trim s c = [] \<or>
   (hd (strings_Trim s c) \<notin> set c \<and> last (strings_Trim s c) \<notin> set c)"
proof (cases "strings_Trim s c = []")
  case False
  let ?P = "\<lambda>r. r \<in> set c"
  let ?y = "dropWhile ?P s"
  have y: "?y = [] \<or> \<not> ?P (hd ?y)"
    using hd_dropWhile by blast
  from trim_right_hd [where P = "?P" and t = "?y", OF y] False have h: "hd (strings_Trim s c) \<notin> set c"
    unfolding strings_Trim_def by blast
  from False have ne: "dropWhile ?P (rev ?y) \<noteq> []"
    by (simp add: strings_Trim_def)
  then have "\<not> ?P (hd (dropWhile ?P (rev ?y)))"
    by (rule hd_dropWhile)
  with ne have "last (strings_Trim s c) \<notin> set c"
    by (simp add: strings_Trim_def last_rev)
  with h show ?thesis by simp
qed simp

lemma trim_id:
  assumes "t = [] \<or> (hd t \<notin> set c \<and> last t \<notin> set c)"
  shows "strings_Trim t c = t"
proof (cases "t = []")
  case False
  with assms have h: "hd t \<notin> set c" and l: "last t \<notin> set c" by auto
  from False h have 1: "dropWhile (\<lambda>r. r \<in> set c) t = t"
    by (cases t) auto
  from False l have 2: "dropWhile (\<lambda>r. r \<in> set c) (rev t) = rev t"
    by (cases "rev t") (auto simp: hd_rev)
  show ?thesis by (simp add: strings_Trim_def 1 2)
qed (simp add: strings_Trim_def)

text \<open>The state of the string before the cut: slug characters, single dashes, none at the ends.\<close>

lemma slug_uncut_props:
  "list_all slug_char (slug_uncut s) \<and> no_double_dash (slug_uncut s) \<and>
   (slug_uncut s = [] \<or> (hd (slug_uncut s) \<noteq> 45 \<and> last (slug_uncut s) \<noteq> 45))"
proof -
  let ?s2 = "replace_non_slug (strings_ToLower (strings_TrimSpace s))"
  have a: "list_all slug_char ?s2"
    unfolding replace_non_slug_def list_all_iff by (auto simp: slug_char_def)
  have u: "slug_uncut s = strings_Trim (collapse_dashes ?s2) (runes ''-'')"
    by (simp add: slug_uncut_def Let_def)
  have "list_all slug_char (slug_uncut s)"
    unfolding u by (intro list_all_trim list_all_collapse a)
  moreover have "no_double_dash (slug_uncut s)"
    unfolding u by (intro no_double_dash_trim no_double_dash_collapse)
  moreover have "slug_uncut s = [] \<or> (hd (slug_uncut s) \<noteq> 45 \<and> last (slug_uncut s) \<noteq> 45)"
    using trim_ends [of "collapse_dashes ?s2" "runes ''-''"] unfolding u
    by (simp add: runes_def)
  ultimately show ?thesis by simp
qed

text \<open>On a string of slug characters with single dashes only \<^verbatim>\<open>strings.Trim\<close> can change anything.\<close>

lemma slug_uncut_on_slug:
  assumes "list_all slug_char u" "no_double_dash u"
  shows "slug_uncut u = strings_Trim u (runes ''-'')"
proof -
  have sp: "\<forall>r \<in> set u. \<not> unicode_IsSpace r"
    using assms(1) by (auto simp: list_all_iff slug_char_not_space)
  have 1: "dropWhile unicode_IsSpace u = u"
    using sp by (intro dropWhile_none) simp
  have 2: "dropWhile unicode_IsSpace (rev u) = rev u"
    using sp by (intro dropWhile_none) simp
  have ts: "strings_TrimSpace u = u"
    by (simp add: strings_TrimSpace_def 1 2)
  have lo: "strings_ToLower u = u"
    unfolding strings_ToLower_def using assms(1)
    by (intro map_idI) (auto simp: list_all_iff slug_char_lower)
  have re: "replace_non_slug u = u"
    unfolding replace_non_slug_def using assms(1)
    by (intro map_idI) (auto simp: list_all_iff)
  show ?thesis
    by (simp add: slug_uncut_def Let_def ts lo re collapse_dashes_id [OF assms(2)])
qed

lemma list_all_take: "list_all P xs \<Longrightarrow> list_all P (take n xs)"
  by (induction xs arbitrary: n) (auto simp: take_Cons split: nat.split)

lemma length_trim_le: "length (strings_Trim s c) \<le> length s"
proof -
  have "length (strings_Trim s c) \<le> length (dropWhile (\<lambda>r. r \<in> set c) s)"
    unfolding strings_Trim_def trim_right_take by simp
  also have "\<dots> \<le> length s" by (rule length_dropWhile_le)
  finally show ?thesis .
qed

lemma Slugify_props:
  "list_all slug_char (Slugify s) \<and> no_double_dash (Slugify s) \<and>
   (Slugify s = [] \<or> hd (Slugify s) \<noteq> 45) \<and> length (Slugify s) \<le> 50"
proof -
  let ?t = "slug_uncut s"
  from slug_uncut_props [of s]
  have a: "list_all slug_char ?t" and n: "no_double_dash ?t"
    and e: "?t = [] \<or> (hd ?t \<noteq> 45 \<and> last ?t \<noteq> 45)" by auto
  have l: "len ?t = length ?t" by (rule len_slug_chars [OF a])
  show ?thesis
  proof (cases "len ?t > 50")
    case True
    then have S: "Slugify s = take 50 ?t" by (simp add: Slugify_def Let_def)
    from True l have "?t \<noteq> []" by auto
    with e have "hd (take 50 ?t) \<noteq> 45" by simp
    then show ?thesis
      unfolding S using list_all_take [OF a] no_double_dash_take [OF n] by simp
  next
    case False
    then have S: "Slugify s = ?t" by (simp add: Slugify_def Let_def)
    from False l have "length ?t \<le> 50" by simp
    then show ?thesis unfolding S using a n e by auto
  qed
qed

lemma Slugify_twice: "Slugify (Slugify s) = strings_Trim (Slugify s) (runes ''-'')"
proof -
  let ?u = "Slugify s"
  from Slugify_props [of s]
  have a: "list_all slug_char ?u" and n: "no_double_dash ?u" and l: "length ?u \<le> 50" by auto
  have t: "slug_uncut ?u = strings_Trim ?u (runes ''-'')"
    by (rule slug_uncut_on_slug [OF a n])
  have "list_all slug_char (strings_Trim ?u (runes ''-''))"
    by (rule list_all_trim [OF a])
  then have "len (strings_Trim ?u (runes ''-'')) = length (strings_Trim ?u (runes ''-''))"
    by (rule len_slug_chars)
  also have "\<dots> \<le> length ?u" by (rule length_trim_le)
  finally have "len (slug_uncut ?u) \<le> 50" using l t by simp
  then show ?thesis
    using t by (simp add: Slugify_def [of "Slugify s"] Let_def)
qed

lemma trim_dash_fixed_iff:
  assumes "u = [] \<or> hd u \<noteq> 45"
  shows "strings_Trim u (runes ''-'') = u \<longleftrightarrow> \<not> ends_in_dash u"
proof
  assume eq: "strings_Trim u (runes ''-'') = u"
  from trim_ends [of u "runes ''-''"] show "\<not> ends_in_dash u"
    unfolding eq by (auto simp: ends_in_dash_def runes_def)
next
  assume "\<not> ends_in_dash u"
  with assms have "u = [] \<or> (hd u \<notin> set (runes ''-'') \<and> last u \<notin> set (runes ''-''))"
    by (auto simp: ends_in_dash_def runes_def)
  then show "strings_Trim u (runes ''-'') = u" by (rule trim_id)
qed

lemma Slugify_uncut_short:
  assumes "len (slug_uncut s) \<le> 50"
  shows "\<not> ends_in_dash (Slugify s)"
proof -
  from assms have "Slugify s = slug_uncut s" by (simp add: Slugify_def Let_def)
  with slug_uncut_props [of s] show ?thesis by (auto simp: ends_in_dash_def)
qed

lemmas slug_eval =
  Slugify_def slug_uncut_def runes_def strings_TrimSpace_def strings_ToLower_def
  unicode_ToLower_def unicode_IsSpace_def replace_non_slug_def slug_char_def
  strings_Trim_def len_def utf8_RuneLen_def Let_def

text \<open>
  C3: Slugify(Slugify(s)) == Slugify(s) for every s, also at the 50-character limit. The
  code does not meet this. \<^verbatim>\<open>Slugify\<close> trims the dashes at both ends and only then cuts to
  50 bytes, so the cut can leave the dash that the trim was there to remove: 49 letters, a
  dash and a letter give a slug of 49 letters and a dash, and the slug of that is the 49
  letters alone.
\<close>

theorem C3_slugify_not_idempotent_at_cut:
  "Slugify (Slugify (runes ''aaaaaaaaaaaaaaaaaaaaaaaaaaaaaaaaaaaaaaaaaaaaaaaaa-b'')) \<noteq>
   Slugify (runes ''aaaaaaaaaaaaaaaaaaaaaaaaaaaaaaaaaaaaaaaaaaaaaaaaa-b'') \<and>
   Slugify (runes ''aaaaaaaaaaaaaaaaaaaaaaaaaaaaaaaaaaaaaaaaaaaaaaaaa-b'') =
     runes ''aaaaaaaaaaaaaaaaaaaaaaaaaaaaaaaaaaaaaaaaaaaaaaaaa-'' \<and>
   Slugify (runes ''aaaaaaaaaaaaaaaaaaaaaaaaaaaaaaaaaaaaaaaaaaaaaaaaa-'') =
     runes ''aaaaaaaaaaaaaaaaaaaaaaaaaaaaaaaaaaaaaaaaaaaaaaaaa''"
proof -
  have 1: "Slugify (runes ''aaaaaaaaaaaaaaaaaaaaaaaaaaaaaaaaaaaaaaaaaaaaaaaaa-b'') =
     runes ''aaaaaaaaaaaaaaaaaaaaaaaaaaaaaaaaaaaaaaaaaaaaaaaaa-''"
    by (simp add: slug_eval)
  have 2: "Slugify (runes ''aaaaaaaaaaaaaaaaaaaaaaaaaaaaaaaaaaaaaaaaaaaaaaaaa-'') =
     runes ''aaaaaaaaaaaaaaaaaaaaaaaaaaaaaaaaaaaaaaaaaaaaaaaaa''"
    by (simp add: slug_eval)
  have 3: "runes ''aaaaaaaaaaaaaaaaaaaaaaaaaaaaaaaaaaaaaaaaaaaaaaaaa'' \<noteq>
     runes ''aaaaaaaaaaaaaaaaaaaaaaaaaaaaaaaaaaaaaaaaaaaaaaaaa-''"
    by (simp add: runes_def)
  show ?thesis unfolding 1 2 using 3 by simp
qed

text \<open>
  The extent of the failure: a second \<^verbatim>\<open>Slugify\<close> only trims the trailing dash of the first,
  so the two agree exactly when the first slug does not end in a dash, and they agree
  whenever the slug before the cut has at most 50 bytes. The dash left by the cut is the
  only way idempotence fails.
\<close>

lemma Slugify_idempotent_iff:
  "Slugify (Slugify s) = strings_Trim (Slugify s) (runes ''-'') \<and>
   (Slugify (Slugify s) = Slugify s \<longleftrightarrow> \<not> ends_in_dash (Slugify s)) \<and>
   (len (slug_uncut s) \<le> 50 \<longrightarrow> Slugify (Slugify s) = Slugify s)"
proof -
  from Slugify_props [of s] have h: "Slugify s = [] \<or> hd (Slugify s) \<noteq> 45" by simp
  have iff: "Slugify (Slugify s) = Slugify s \<longleftrightarrow> \<not> ends_in_dash (Slugify s)"
    unfolding Slugify_twice by (rule trim_dash_fixed_iff [OF h])
  with Slugify_twice Slugify_uncut_short show ?thesis by blast
qed

lemma Slugify_idempotent_example:
  "len (slug_uncut (runes ''  Hello, World! '')) \<le> 50 \<and>
   Slugify (runes ''  Hello, World! '') = runes ''hello-world'' \<and>
   Slugify (Slugify (runes ''  Hello, World! '')) = Slugify (runes ''  Hello, World! '')"
proof -
  have 1: "len (slug_uncut (runes ''  Hello, World! '')) \<le> 50"
    by (simp add: slug_eval)
  have 2: "Slugify (runes ''  Hello, World! '') = runes ''hello-world''"
    by (simp add: slug_eval)
  from Slugify_idempotent_iff [of "runes ''  Hello, World! ''"] 1
  have "Slugify (Slugify (runes ''  Hello, World! '')) = Slugify (runes ''  Hello, World! '')"
    by blast
  with 1 2 show ?thesis by blast
qed

section \<open>Fact validator\<close>






section \<open>Orchestrator: admission\<close>

lemma decimal_simps_small [simp]: "n < 10 \<Longrightarrow> decimal n = [48 + n]"
  by simp

declare decimal.simps [simp del]

text \<open>
  C7: \<^verbatim>\<open>Submit\<close> puts the job into the job store before it tries the send, so the job
  is retrievable under its id afterwards in every case (also when the send panics on a
  closed queue). On a full queue (no room in the buffer and no worker waiting) it returns
  an error and the job, still in the store, has status failed and phase "queue_full" and
  is otherwise unchanged. When the send can proceed, \<^verbatim>\<open>Submit\<close> returns nil, the job is
  in the queue (or handed to the waiting worker) and is unchanged.
\<close>

theorem C7_submit:
  assumes "heap s job = Some j"
  shows "JobStore_Get (ID j) (snd (Submit job s)) = Some job \<and>
     (\<not> closed s \<and> receivers s = 0 \<and> length (queue s) \<ge> MaxQueueSize s \<longrightarrow>
        (\<exists>e. fst (Submit job s) = Inr (Some e)) \<and>
        heap (snd (Submit job s)) job =
          Some (j\<lparr>Status := StatusFailed, Phase := runes ''queue_full''\<rparr>) \<and>
        queue (snd (Submit job s)) = queue s) \<and>
     (\<not> closed s \<and> (receivers s > 0 \<or> length (queue s) < MaxQueueSize s) \<longrightarrow>
        fst (Submit job s) = Inr None \<and>
        heap (snd (Submit job s)) job = Some j \<and>
        (queue (snd (Submit job s)) = queue s @ [job] \<or>
         handed (snd (Submit job s)) = handed s @ [job]))"
  using assms
  by (auto simp: Submit_def JobStore_Put_def JobStore_Get_def try_send_def SetStatus_def)

theorem C7_submit_witness:
  "heap (example_orchestrator [7]) 0 = Some example_job \<and>
   JobStore_Get (ID example_job) (snd (Submit 0 (example_orchestrator [7]))) = Some 0 \<and>
   (\<exists>e. fst (Submit 0 (example_orchestrator [7])) = Inr (Some e)) \<and>
   heap (snd (Submit 0 (example_orchestrator [7]))) 0 =
     Some (example_job\<lparr>Status := StatusFailed, Phase := runes ''queue_full''\<rparr>) \<and>
   heap (example_orchestrator []) 0 = Some example_job \<and>
   fst (Submit 0 (example_orchestrator [])) = Inr None \<and>
   heap (snd (Submit 0 (example_orchestrator []))) 0 = Some example_job \<and>
   queue (snd (Submit 0 (example_orchestrator []))) = [0]"
proof -
  have h1: "heap (example_orchestrator [7]) 0 = Some example_job"
    and h2: "heap (example_orchestrator []) 0 = Some example_job"
    by (simp_all add: example_orchestrator_def)
  have full: "\<not> closed (example_orchestrator [7]) \<and> receivers (example_orchestrator [7]) = 0 \<and>
      length (queue (example_orchestrator [7])) \<ge> MaxQueueSize (example_orchestrator [7])"
    by (simp add: example_orchestrator_def)
  have free: "\<not> closed (example_orchestrator []) \<and>
      length (queue (example_orchestrator [])) < MaxQueueSize (example_orchestrator [])"
    and q: "queue (example_orchestrator []) = []" "handed (example_orchestrator []) = []"
      "receivers (example_orchestrator []) = 0"
    by (simp_all add: example_orchestrator_def)
  have nh: "handed (snd (Submit 0 (example_orchestrator []))) \<noteq> [0]"
    by (simp add: Submit_def JobStore_Put_def try_send_def example_orchestrator_def)
  from C7_submit [OF h1] full
  have a: "JobStore_Get (ID example_job) (snd (Submit 0 (example_orchestrator [7]))) = Some 0"
    "\<exists>e. fst (Submit 0 (example_orchestrator [7])) = Inr (Some e)"
    "heap (snd (Submit 0 (example_orchestrator [7]))) 0 =
       Some (example_job\<lparr>Status := StatusFailed, Phase := runes ''queue_full''\<rparr>)"
    by blast+
  from C7_submit [OF h2] free q nh
  have b: "fst (Submit 0 (example_orchestrator [])) = Inr None"
    "heap (snd (Submit 0 (example_orchestrator []))) 0 = Some example_job"
    "queue (snd (Submit 0 (example_orchestrator []))) = [0]"
    by auto
  from h1 h2 a b show ?thesis by blast
qed

section \<open>Retry policy\<close>

lemma wrap64_id: "- (2 ^ 63) \<le> x \<Longrightarrow> x < 2 ^ 63 \<Longrightarrow> wrap64 x = x"
  by (simp add: wrap64_def)

lemma sdiv_2_nonneg: "0 \<le> x \<Longrightarrow> x sdiv 2 = x div (2::int)"
  by (cases "x = 0") (simp_all add: signed_divide_int_def sgn_if)

lemma backoff_base:
  assumes "n \<le> 33"
  shows "wrap64 (shl64 1 (uint64_of (int n)) * time_Second) = 2 ^ n * 1000000000"
proof -
  have u: "uint64_of (int n) = n"
    using assms by (simp add: uint64_of_def)
  have p: "(2::int) ^ n \<le> 2 ^ 33"
    using assms by (intro power_increasing) simp_all
  have nn: "(0::int) \<le> 2 ^ n" by simp
  have lo: "- (2 ^ 63) \<le> (2::int) ^ n"
    by (rule order_trans [OF _ nn]) simp
  have hi: "(2::int) ^ n < 2 ^ 63"
    using p by simp
  have "wrap64 (2 ^ n) = 2 ^ n"
    using lo hi by (rule wrap64_id)
  then have s: "shl64 1 n = 2 ^ n"
    using assms by (simp add: shl64_def)
  have "(2::int) ^ n * 1000000000 \<le> 2 ^ 33 * 1000000000"
    using p by simp
  then have hi2: "(2::int) ^ n * 1000000000 < 2 ^ 63" by simp
  have nn2: "(0::int) \<le> 2 ^ n * 1000000000" by simp
  have lo2: "- (2 ^ 63) \<le> (2::int) ^ n * 1000000000"
    by (rule order_trans [OF _ nn2]) simp
  have "wrap64 (2 ^ n * 1000000000) = 2 ^ n * 1000000000"
    using lo2 hi2 by (rule wrap64_id)
  then show ?thesis by (simp add: u s time_Second_def)
qed

text \<open>
  For attempts 0 to 33 the product does not overflow and \<^verbatim>\<open>Backoff\<close> returns a duration
  (in nanoseconds) from \<open>min(2\<^sup>n, 30)\<close> seconds up to, and not including, one and a half
  times that, whatever the draw.
\<close>

lemma backoff_in_range:
  assumes "n \<le> 33"
  shows "\<exists>d. Backoff (int n) r = Inr d \<and>
           min (2 ^ n) 30 * time_Second \<le> d \<and> 2 * d < 3 * (min (2 ^ n) 30 * time_Second)"
proof -
  define base where "base = min (2 ^ n) 30 * time_Second"
  have w30: "wrap64 (30 * time_Second) = 30 * time_Second"
    by (simp add: time_Second_def wrap64_def)
  have b: "(if wrap64 (shl64 1 (uint64_of (int n)) * time_Second) > wrap64 (30 * time_Second)
            then wrap64 (30 * time_Second)
            else wrap64 (shl64 1 (uint64_of (int n)) * time_Second)) = base"
    unfolding backoff_base [OF assms] w30 base_def
    by (simp add: time_Second_def min_def)
  have pos: "0 < base" "even base" "base \<le> 30 * time_Second"
    by (simp_all add: base_def time_Second_def min_def)
  then have half: "base sdiv 2 = base div 2" "0 < base div 2"
    by (simp_all add: sdiv_2_nonneg) (auto simp: time_Second_def elim: evenE)
  define j where "j = int r mod (base div 2)"
  have j: "0 \<le> j" "j < base div 2"
    using half by (simp_all add: j_def)
  have "wrap64 (base + j) = base + j"
    using j pos by (intro wrap64_id) (simp_all add: time_Second_def)
  then have "Backoff (int n) r = Inr (base + j)"
    using half by (simp add: Backoff_def Let_def b rand_Int64N_def j_def)
  moreover have "base \<le> base + j" "2 * (base + j) < 3 * base"
    using j pos by (auto elim: evenE)
  ultimately show ?thesis unfolding base_def by blast
qed

text \<open>
  C8, first part, at attempt 34: \<open>2\<^sup>3\<^sup>4\<close> seconds in nanoseconds overflow 64 bits to a
  negative duration, which the cap to 30 seconds lets through; the bound of the jitter is
  then negative and \<^verbatim>\<open>rand.Int64N\<close> panics. From attempt 55 on the product wraps to 0,
  with the same end. The claim's interval holds for attempts 0 to 33 (lemma
  \<open>backoff_in_range\<close>), among them the attempts 0, 1 and 2 that the pipeline makes.
\<close>

theorem C8_backoff_overflow:
  "Backoff 34 r = Inl Panic \<and> Backoff 55 r = Inl Panic \<and> Backoff 64 r = Inl Panic"
  by (simp add: Backoff_def shl64_def uint64_of_def wrap64_def time_Second_def
      rand_Int64N_def signed_divide_int_def Let_def)

section \<open>Chunker: token bound of the emitted chunks\<close>

subsection \<open>Words of joined texts\<close>











lemma wordCount_Nil [simp]: "wordCount [] = 0"
  by (simp add: wordCount_def strings_Fields_def)

subsection \<open>Tokens against words\<close>







subsection \<open>The overlap\<close>


subsection \<open>The accumulation loops\<close>











subsection \<open>The tree walk\<close>







lemmas chunk_eval =
  ChunkTree_def splitText_def splitByParagraphs_def strings_Split_def paragraph_step_def
  splitBySentences_def splitSentences_def sentence_step_def flush_for_def write_piece_def
  finish_split_def getOverlapText_def emit_part_def copyBreadcrumb_def EstimateTokens_def
  strings_Fields_def strings_TrimSpace_def unicode_IsSpace_def runes_def Let_def
  signed_divide_int_def

lemma cex1: "map (\<lambda>c. EstimateTokens (Text_c c))
     (ChunkTree \<lparr>Title_t = [], Children_t = [DocNode [] (runes ''a b c d'') 0 []]\<rparr>
        \<lparr>ChunkSize = 2, ChunkOverlap = 1, MinChunk = 1\<rparr>) = [5]"
  by (simp add: chunk_eval)

subsection \<open>The claim\<close>




section \<open>LLM latency statistics and the LLM client\<close>

lemma Snapshot_Count: "Count (fst (Snapshot now s)) = int (length (samples (pruneLocked now s)))"
  by (simp add: Snapshot_def Let_def)

text \<open>
  What \<^verbatim>\<open>LLMStats.Record\<close> does when it is called: one sample more in the window, so
  that a snapshot at that time counts one more.
\<close>

lemma Record_count:
  assumes "0 \<le> maxAge s"
  shows "Count (fst (Snapshot now (Record d now s))) = Count (fst (Snapshot now s)) + 1"
  using assms
  by (simp add: Snapshot_Count Record_def Let_def pruneLocked_def)

text \<open>
  C9 says that every call of \<^verbatim>\<open>ExtractFacts\<close> appends one sample to the latency
  statistics. \<^verbatim>\<open>ExtractFacts\<close> never calls \<^verbatim>\<open>Record\<close>: whatever the exchange with the
  provider, the statistics are the same after the call and the count of a snapshot has
  not moved.
\<close>

theorem C9_extract_facts_records_nothing:
  "snd (call_ExtractFacts js exchange stats) = stats \<and>
   Count (fst (Snapshot now (snd (call_ExtractFacts js exchange stats)))) =
     Count (fst (Snapshot now stats))"
  by (simp add: call_ExtractFacts_def)

section \<open>Worker pipeline: the retry loop\<close>

lemma extract_loop_no_panic: "\<exists>r. fst (extract_loop e i a prev) = Inr r"
proof (induction e i a prev rule: extract_loop.induct)
  case (1 e i attempt prev)
  show ?case
  proof (cases "attempt < MaxRetries")
    case False
    then show ?thesis by (simp split: sum.split)
  next
    case True
    then have "attempt \<le> 33" by (simp add: MaxRetries_def)
    from backoff_in_range [OF this, of "draw e i attempt"]
    obtain d where d: "Backoff (int attempt) (draw e i attempt) = Inr d" by blast
    show ?thesis
    proof (cases "ExtractFacts (codec e) (http e i attempt)")
      case (Inr fs)
      with True show ?thesis by simp
    next
      case (Inl lastErr)
      show ?thesis
      proof (cases "IsRetryable lastErr \<and> \<not> cancelled e i attempt")
        case False
        with True Inl d show ?thesis by auto
      next
        case c: True
        with 1 [OF True Inl _ d] True Inl d show ?thesis
          by (auto split: prod.split)
      qed
    qed
  qed
qed

text \<open>
  The calls of one chunk's loop are the attempts \<open>a, a + 1, ...\<close>, none beyond
  \<^verbatim>\<open>MaxRetries\<close>, and each attempt but the last returned an error with a
  \<^verbatim>\<open>RetryableError\<close> in its chain.
\<close>

lemma extract_loop_trace:
  "\<exists>n. snd (extract_loop e i a prev) = map (EvExtractFacts i) [a..<a + n] \<and>
       a + n \<le> max a MaxRetries \<and>
       (\<forall>k. a \<le> k \<and> Suc k < a + n \<longrightarrow>
          (\<exists>er. ExtractFacts (codec e) (http e i k) = Inl er \<and> IsRetryable er))"
proof (induction e i a prev rule: extract_loop.induct)
  case (1 e i attempt prev)
  let ?P = "\<lambda>a n. \<forall>k. a \<le> k \<and> Suc k < a + n \<longrightarrow>
          (\<exists>er. ExtractFacts (codec e) (http e i k) = Inl er \<and> IsRetryable er)"
  show ?case
  proof (cases "attempt < MaxRetries")
    case False
    then have "snd (extract_loop e i attempt prev) = []"
      by (simp split: sum.split)
    then have "snd (extract_loop e i attempt prev) = map (EvExtractFacts i) [attempt..<attempt + 0] \<and>
        attempt + 0 \<le> max attempt MaxRetries \<and> ?P attempt 0"
      by (auto simp del: extract_loop.simps)
    then show ?thesis by (rule exI)
  next
    case True
    have one: ?thesis if "snd (extract_loop e i attempt prev) = [EvExtractFacts i attempt]"
    proof -
      from that True
      have "snd (extract_loop e i attempt prev) = map (EvExtractFacts i) [attempt..<attempt + 1] \<and>
        attempt + 1 \<le> max attempt MaxRetries \<and> ?P attempt 1"
        by (auto simp del: extract_loop.simps)
      then show ?thesis by (rule exI)
    qed
    have "attempt \<le> 33" using True by (simp add: MaxRetries_def)
    from backoff_in_range [OF this, of "draw e i attempt"]
    obtain d where d: "Backoff (int attempt) (draw e i attempt) = Inr d" by blast
    show ?thesis
    proof (cases "ExtractFacts (codec e) (http e i attempt)")
      case (Inr fs)
      with True show ?thesis by (intro one) simp
    next
      case (Inl lastErr)
      show ?thesis
      proof (cases "IsRetryable lastErr \<and> \<not> cancelled e i attempt")
        case False
        with True Inl d show ?thesis by (intro one) auto
      next
        case c: True
        from 1 [OF True Inl _ d] c
        obtain n where n: "snd (extract_loop e i (attempt + 1) (Inl lastErr)) =
            map (EvExtractFacts i) [attempt + 1..<attempt + 1 + n]"
          "attempt + 1 + n \<le> max (attempt + 1) MaxRetries" "?P (attempt + 1) n"
          by auto
        have tr: "snd (extract_loop e i attempt prev) =
            EvExtractFacts i attempt # snd (extract_loop e i (attempt + 1) (Inl lastErr))"
          using True Inl d c by (simp split: prod.split)
        have "snd (extract_loop e i attempt prev) =
            map (EvExtractFacts i) [attempt..<attempt + Suc n]"
          unfolding tr n(1) by (simp add: upt_rec [of attempt] del: extract_loop.simps)
        moreover have "attempt + Suc n \<le> max attempt MaxRetries"
          using n(2) True by simp
        moreover have "?P attempt (Suc n)"
        proof (intro allI impI)
          fix k assume k: "attempt \<le> k \<and> Suc k < attempt + Suc n"
          show "\<exists>er. ExtractFacts (codec e) (http e i k) = Inl er \<and> IsRetryable er"
          proof (cases "k = attempt")
            case True
            with Inl c show ?thesis by simp
          next
            case False
            with k have "attempt + 1 \<le> k \<and> Suc k < attempt + 1 + n" by simp
            with n(3) show ?thesis by blast
          qed
        qed
        ultimately have "snd (extract_loop e i attempt prev) =
            map (EvExtractFacts i) [attempt..<attempt + Suc n] \<and>
            attempt + Suc n \<le> max attempt MaxRetries \<and> ?P attempt (Suc n)"
          by blast
        then show ?thesis by (rule exI)
      qed
    qed
  qed
qed

lemma extract_loop_attempts:
  "\<exists>n \<le> MaxRetries. snd (extract_loop e i 0 p) = map (EvExtractFacts i) [0..<n] \<and>
       (\<forall>k. Suc k < n \<longrightarrow>
          (\<exists>er. ExtractFacts (codec e) (http e i k) = Inl er \<and> IsRetryable er))"
  using extract_loop_trace [of e i 0 p] by auto

section \<open>Worker pipeline: after the extraction\<close>

lemma fold_collect_step:
  "fold collect_step rs (job, acc, h) = (job', acc', h') \<Longrightarrow>
   acc' = acc @ accumulated rs \<and> h' = (h \<or> any_failed rs)"
proof (induction rs arbitrary: job acc h)
  case Nil
  then show ?case by (simp add: accumulated_def any_failed_def)
next
  case (Cons r rs)
  show ?case
  proof (cases "err r")
    case None
    then have "collect_step r (job, acc, h) =
        (IncrChunksProcessed job, acc @ valid_facts (facts r), h)"
      by (simp add: collect_step_def Let_def)
    with Cons.prems have "fold collect_step rs
        (IncrChunksProcessed job, acc @ valid_facts (facts r), h) = (job', acc', h')"
      by simp
    from Cons.IH [OF this] None show ?thesis
      by (simp add: accumulated_def any_failed_def)
  next
    case (Some er)
    then obtain j1 where "collect_step r (job, acc, h) = (j1, acc, True)"
      by (simp add: collect_step_def Let_def)
    with Cons.prems have "fold collect_step rs (j1, acc, True) = (job', acc', h')"
      by simp
    from Cons.IH [OF this] Some show ?thesis
      by (simp add: accumulated_def any_failed_def)
  qed
qed

lemma collect_results_cases:
  obtains job1 where
    "fold collect_step rs (job, [], False) = (job1, accumulated rs, any_failed rs)"
proof -
  obtain job1 acc h where f: "fold collect_step rs (job, [], False) = (job1, acc, h)"
    by (cases "fold collect_step rs (job, [], False)") auto
  from fold_collect_step [OF f] f that show ?thesis by simp
qed

lemma store_fold_status:
  "fold (store_step e prefix docPrefix docID) nfs (job, n, h, tr) = (job', n', h', tr') \<Longrightarrow>
   Status job' = Status job \<and> Phase job' = Phase job"
proof (induction nfs arbitrary: job n h tr)
  case Nil
  then show ?case by simp
next
  case (Cons nf nfs)
  obtain j1 n1 h1 tr1 where s: "store_step e prefix docPrefix docID nf (job, n, h, tr) = (j1, n1, h1, tr1)"
    by (cases "store_step e prefix docPrefix docID nf (job, n, h, tr)") auto
  then have "Status j1 = Status job \<and> Phase j1 = Phase job"
    by (auto simp: store_step_def AddError_def Let_def split: prod.splits option.splits)
  moreover from Cons.prems s
  have "fold (store_step e prefix docPrefix docID) nfs (j1, n1, h1, tr1) = (job', n', h', tr')"
    by simp
  from Cons.IH [OF this] have "Status job' = Status j1 \<and> Phase job' = Phase j1" .
  ultimately show ?case by simp
qed

text \<open>The storing step ends with the two writes of the metadata and the hash index and in one of three states.\<close>

lemma process_store_outcome:
  "\<exists>tr metaPath hashPath.
     snd (process_store e job fs h) = tr @ [EvPutNode metaPath, EvPutNode hashPath] \<and>
     (Status (fst (process_store e job fs h)), Phase (fst (process_store e job fs h))) \<in>
       {(StatusPartial, runes ''done''), (StatusFailed, runes ''storing''),
        (StatusCompleted, runes ''done'')}"
  by (auto simp: process_store_def Let_def SetStatus_def split: prod.splits option.splits)

lemma gate_returned_status:
  "collect_results rs job = Returned j \<Longrightarrow> Status j = StatusFailed \<and> Phase j = runes ''extracting''"
  by (auto simp: collect_results_def Let_def SetStatus_def split: prod.splits if_splits)

text \<open>
  C5, as stated: the job fails in phase "extracting" exactly when every chunk failed.
  With two chunks, the first extracted without a fact and the second failed, not every
  chunk has failed, and the job is failed in phase "extracting" all the same.
\<close>

theorem C5_not_every_chunk_failed_counterexample:
  "collect_results
     [\<lparr>facts = [], err = None, idx = 0\<rparr>,
      \<lparr>facts = [], err = Some (PlainError (runes ''claude api status 400: bad request'')), idx = 1\<rparr>]
     (SetStatus StatusExtracting (runes ''extracting'') example_job) =
   Returned (example_job
     \<lparr>Status := StatusFailed, Phase := runes ''extracting'',
      Progress := \<lparr>TotalChunks = 0, ChunksProcessed = 2, FactsValid = 0, FactsStored = 0,
                   Errors = [runes ''chunk 1: claude api status 400: bad request'']\<rparr>\<rparr>) \<and>
   \<not> all_failed
     [\<lparr>facts = [], err = None, idx = 0\<rparr>,
      \<lparr>facts = [], err = Some (PlainError (runes ''claude api status 400: bad request'')), idx = 1\<rparr>]"
  by (simp add: collect_results_def collect_step_def valid_facts_def List.map_filter_def
      IncrChunksProcessed_def AddError_def AddFacts_def SetStatus_def example_job_def
      Sprintf_d_def all_failed_def Let_def runes_def)

text \<open>
  C5, amended: after the results are collected, the job goes to status failed with phase
  "extracting" and \<^verbatim>\<open>Process\<close> returns without storing exactly when at least one chunk's
  extraction failed and no validated fact was accumulated (as when every chunk failed).
  In every other case, in particular when no chunk failed, even with no valid fact, the
  pipeline goes on to the storing step with the accumulated facts, and that step writes
  the metadata and the hash index and ends completed, partial or failed in phase
  "storing".
\<close>

theorem C5_extraction_gate:
  "((\<exists>j. collect_results rs job = Returned j) \<longleftrightarrow> any_failed rs \<and> accumulated rs = []) \<and>
   (\<forall>j. collect_results rs job = Returned j \<longrightarrow>
      Status j = StatusFailed \<and> Phase j = runes ''extracting'') \<and>
   (\<forall>j fs h. collect_results rs job = Proceeds j fs h \<longrightarrow>
      fs = accumulated rs \<and> h = any_failed rs \<and>
      (\<exists>tr metaPath hashPath.
         snd (process_store e j fs h) = tr @ [EvPutNode metaPath, EvPutNode hashPath]) \<and>
      (Status (fst (process_store e j fs h)), Phase (fst (process_store e j fs h))) \<in>
        {(StatusPartial, runes ''done''), (StatusFailed, runes ''storing''),
         (StatusCompleted, runes ''done'')})"
proof -
  obtain job1 where f: "fold collect_step rs (job, [], False) = (job1, accumulated rs, any_failed rs)"
    by (rule collect_results_cases)
  have c: "collect_results rs job =
      (if accumulated rs = [] \<and> any_failed rs
       then Returned (SetStatus StatusFailed (runes ''extracting'')
              (AddFacts (int (length (accumulated rs))) 0 job1))
       else Proceeds (AddFacts (int (length (accumulated rs))) 0 job1)
              (accumulated rs) (any_failed rs))"
    by (simp add: collect_results_def f Let_def)
  show ?thesis
    unfolding c using process_store_outcome
    by (auto simp: SetStatus_def)
qed

theorem C5_extraction_gate_witness:
  "any_failed [\<lparr>facts = [], err = Some (RetryableError 429 (runes ''slow down'')), idx = 0\<rparr>] \<and>
   accumulated [\<lparr>facts = [], err = Some (RetryableError 429 (runes ''slow down'')), idx = 0\<rparr>] = [] \<and>
   (\<exists>j. collect_results
          [\<lparr>facts = [], err = Some (RetryableError 429 (runes ''slow down'')), idx = 0\<rparr>]
          example_job = Returned j \<and>
        Status j = StatusFailed \<and> Phase j = runes ''extracting'') \<and>
   \<not> any_failed [\<lparr>facts = [], err = None, idx = 0\<rparr>] \<and>
   (\<exists>j. collect_results [\<lparr>facts = [], err = None, idx = 0\<rparr>] example_job =
          Proceeds j [] False)"
proof -
  let ?A = "[\<lparr>facts = [], err = Some (RetryableError 429 (runes ''slow down'')), idx = 0\<rparr>]"
  let ?B = "[\<lparr>facts = [], err = None, idx = 0\<rparr>]"
  have a: "any_failed ?A" "accumulated ?A = []"
    by (simp_all add: any_failed_def accumulated_def)
  have b: "\<not> any_failed ?B" "accumulated ?B = []"
    by (simp_all add: any_failed_def accumulated_def valid_facts_def List.map_filter_def)
  from C5_extraction_gate [of ?A example_job "example_env (Inr [])"] a
  have 1: "\<exists>j. collect_results ?A example_job = Returned j \<and>
        Status j = StatusFailed \<and> Phase j = runes ''extracting''"
    by blast
  from C5_extraction_gate [of ?B example_job "example_env (Inr [])"] b
  have "\<not> (\<exists>j. collect_results ?B example_job = Returned j)"
    by blast
  then obtain j fs h where p: "collect_results ?B example_job = Proceeds j fs h"
    by (cases "collect_results ?B example_job") auto
  with C5_extraction_gate [of ?B example_job "example_env (Inr [])"] b
  have "fs = []" "h = False" by auto
  with p have 2: "\<exists>j. collect_results ?B example_job = Proceeds j [] False" by blast
  from a b 1 2 show ?thesis by blast
qed

section \<open>Worker pipeline: the duplicate check\<close>

lemma extract_chunks_no_panic: "\<exists>rs. fst (extract_chunks e i cs) = Inr rs"
proof (induction cs arbitrary: i)
  case Nil
  then show ?case by simp
next
  case (Cons c cs)
  obtain r where r: "fst (extract_loop e i 0 (Inr [])) = Inr r"
    using extract_loop_no_panic by blast
  obtain rs where rs: "fst (extract_chunks e (i + 1) cs) = Inr rs"
    using Cons.IH by blast
  from r rs show ?case
    by (cases "extract_loop e i 0 (Inr [])"; cases "extract_chunks e (i + 1) cs")
       (simp del: extract_loop.simps)
qed

text \<open>From the chunking on, \<^verbatim>\<open>Process\<close> calls the chunker first and never ends as a skipped duplicate.\<close>

lemma process_chunks_outcome:
  "\<exists>j tr'. process_chunks e w job tree tr = Inr (j, tr @ EvChunkTree # tr') \<and>
     Status j \<noteq> StatusDupSkipped"
proof (cases "length (ChunkTree tree (chunkCfg w)) = 0")
  case True
  then show ?thesis
    by (simp add: process_chunks_def Let_def SetStatus_def)
next
  case False
  let ?job3 = "SetStatus StatusExtracting (runes ''extracting'')
     (SetTotalChunks (int (length (ChunkTree tree (chunkCfg w))))
        (SetStatus StatusChunking (runes ''chunking'') job))"
  obtain rs tr2 where x: "extract_chunks e 0 (ChunkTree tree (chunkCfg w)) = (Inr rs, tr2)"
    using extract_chunks_no_panic [of e 0 "ChunkTree tree (chunkCfg w)"]
    by (cases "extract_chunks e 0 (ChunkTree tree (chunkCfg w))") auto
  show ?thesis
  proof (cases "collect_results rs ?job3")
    case (Returned job4)
    with gate_returned_status [of rs ?job3] have "Status job4 = StatusFailed" by simp
    with False x Returned show ?thesis
      by (simp add: process_chunks_def Let_def)
  next
    case (Proceeds job4 allFacts hadErrors)
    obtain job5 tr3 where s: "process_store e job4 allFacts hadErrors = (job5, tr3)"
      by (cases "process_store e job4 allFacts hadErrors") auto
    with process_store_outcome [of e job4 allFacts hadErrors]
    have "Status job5 \<noteq> StatusDupSkipped" by auto
    with False x Proceeds s show ?thesis
      by (simp add: process_chunks_def Let_def)
  qed
qed

lemma split_from_nonempty: "split_from sep cur s \<noteq> []"
  by (induction sep cur s rule: split_from.induct) (simp split: if_splits)

text \<open>
  C6: when the file parses and the listing under
  \<^verbatim>\<open>memory/users/{userID}/documents/by_hash/{contentHash}\<close> with limit 1 returns at least
  one child, \<^verbatim>\<open>Process\<close> returns with status duplicate_skipped and phase "dedup", and the
  listing is the only call it has made: no chunking, no LLM call, no pathstore write. The
  existing docID that \<^verbatim>\<open>checkDuplicate\<close> reports is the last of the segments of the
  first child's key between dots. When the listing fails, processing goes on: the next
  call is the chunker and the job does not end as a skipped duplicate.
\<close>

theorem C6_duplicate_skipped:
  assumes "ForFile (Filename job) = Inr p"
    and "Parse e p (fileData job) (Filename job) = Inr tree0"
  shows "(\<forall>c cs. ListChildren e (hashPrefix (hashed e job tree0)) 1 = Inr (c # cs) \<longrightarrow>
            Process e w job =
              Inr (SetStatus StatusDupSkipped (runes ''dedup'') (hashed e job tree0),
                   [EvListChildren (hashPrefix (hashed e job tree0)) 1]) \<and>
            fst (checkDuplicate e (hashed e job tree0)) =
              (True, last (strings_Split (Key c) (runes ''.'')), None)) \<and>
         (\<forall>er. ListChildren e (hashPrefix (hashed e job tree0)) 1 = Inl er \<longrightarrow>
            (\<exists>j tr. Process e w job =
                 Inr (j, EvListChildren (hashPrefix (hashed e job tree0)) 1 # EvChunkTree # tr) \<and>
               Status j \<noteq> StatusDupSkipped))"
proof -
  let ?job1 = "SetStatus StatusParsing (runes ''parsing'') job"
  let ?job2 = "hashed e job tree0"
  have j1: "Filename ?job1 = Filename job" "fileData ?job1 = fileData job" "Title ?job1 = Title job"
    by (simp_all add: SetStatus_def)
  have t: "titled ?job1 tree0 = titled job tree0"
    by (simp add: titled_def SetStatus_def)
  have h: "?job1\<lparr>ContentHash := ContentHashHex e (flattenTreeText (titled job tree0))\<rparr> = ?job2"
    by (simp add: hashed_def)
  have P: "Process e w job =
      (case checkDuplicate e ?job2 of
         ((exists, existingDocID, er), tr) \<Rightarrow>
           if er = None \<and> exists
           then Inr (SetStatus StatusDupSkipped (runes ''dedup'') ?job2, tr)
           else process_chunks e w ?job2 (titled job tree0) tr)"
    using assms by (simp add: Process_def Let_def j1 t h split: prod.split)
  show ?thesis
  proof (intro conjI allI impI)
    fix c cs
    assume l: "ListChildren e (hashPrefix ?job2) 1 = Inr (c # cs)"
    then have cd: "checkDuplicate e ?job2 =
        ((True, last (strings_Split (Key c) (runes ''.'')), None),
         [EvListChildren (hashPrefix ?job2) 1])"
      by (simp add: checkDuplicate_def)
    then show "fst (checkDuplicate e ?job2) =
        (True, last (strings_Split (Key c) (runes ''.'')), None)" by simp
    from cd show "Process e w job =
        Inr (SetStatus StatusDupSkipped (runes ''dedup'') ?job2,
             [EvListChildren (hashPrefix ?job2) 1])"
      unfolding P by simp
  next
    fix er
    assume l: "ListChildren e (hashPrefix ?job2) 1 = Inl er"
    then have cd: "checkDuplicate e ?job2 =
        ((False, [], Some er), [EvListChildren (hashPrefix ?job2) 1])"
      by (simp add: checkDuplicate_def)
    have "Process e w job =
        process_chunks e w ?job2 (titled job tree0) [EvListChildren (hashPrefix ?job2) 1]"
      unfolding P cd by simp
    with process_chunks_outcome [of e w ?job2 "titled job tree0" "[EvListChildren (hashPrefix ?job2) 1]"]
    show "\<exists>j tr. Process e w job =
        Inr (j, EvListChildren (hashPrefix ?job2) 1 # EvChunkTree # tr) \<and>
        Status j \<noteq> StatusDupSkipped"
      by auto
  qed
qed

theorem C6_duplicate_skipped_witness:
  "ForFile (Filename example_job) = Inr TextParser \<and>
   Parse (example_env (Inr [\<lparr>Key = runes ''memory.users.u1.documents.by_hash.2cf24dba.doc-0''\<rparr>]))
     TextParser (fileData example_job) (Filename example_job) =
     Inr \<lparr>Title_t = runes ''notes.txt'', Children_t = [DocNode [] (runes ''hello'') 0 []]\<rparr> \<and>
   Process (example_env (Inr [\<lparr>Key = runes ''memory.users.u1.documents.by_hash.2cf24dba.doc-0''\<rparr>]))
     example_worker example_job =
     Inr (example_job\<lparr>Status := StatusDupSkipped, Phase := runes ''dedup'',
                       ContentHash := runes ''2cf24dba''\<rparr>,
          [EvListChildren (runes ''memory/users/u1/documents/by_hash/2cf24dba'') 1]) \<and>
   fst (checkDuplicate
          (example_env (Inr [\<lparr>Key = runes ''memory.users.u1.documents.by_hash.2cf24dba.doc-0''\<rparr>]))
          (example_job\<lparr>Status := StatusParsing, Phase := runes ''parsing'',
                       ContentHash := runes ''2cf24dba''\<rparr>)) =
     (True, runes ''doc-0'', None) \<and>
   (\<exists>j tr. Process (example_env (Inl (PlainError (runes ''list children: timeout''))))
              example_worker example_job =
        Inr (j, EvListChildren (runes ''memory/users/u1/documents/by_hash/2cf24dba'') 1 #
                EvChunkTree # tr) \<and>
      Status j \<noteq> StatusDupSkipped)"
proof -
  let ?child = "\<lparr>Key = runes ''memory.users.u1.documents.by_hash.2cf24dba.doc-0''\<rparr>"
  let ?D = "example_env (Inr [?child])"
  let ?E = "example_env (Inl (PlainError (runes ''list children: timeout'')))"
  let ?tree = "\<lparr>Title_t = runes ''notes.txt'', Children_t = [DocNode [] (runes ''hello'') 0 []]\<rparr>"
  have f: "ForFile (Filename example_job) = Inr TextParser"
    by (simp add: ForFile_def example_job_def filepath_Ext_def strings_ToLower_def
        unicode_ToLower_def runes_def Let_def)
  have pD: "Parse ?D TextParser (fileData example_job) (Filename example_job) = Inr ?tree"
    and pE: "Parse ?E TextParser (fileData example_job) (Filename example_job) = Inr ?tree"
    by (simp_all add: example_env_def example_job_def)
  have hD: "hashed ?D example_job ?tree =
      example_job\<lparr>Status := StatusParsing, Phase := runes ''parsing'',
                  ContentHash := runes ''2cf24dba''\<rparr>"
    and hE: "hashed ?E example_job ?tree =
      example_job\<lparr>Status := StatusParsing, Phase := runes ''parsing'',
                  ContentHash := runes ''2cf24dba''\<rparr>"
    by (simp_all add: hashed_def example_env_def SetStatus_def)
  have k: "hashPrefix (example_job\<lparr>Status := StatusParsing, Phase := runes ''parsing'',
                  ContentHash := runes ''2cf24dba''\<rparr>) =
      runes ''memory/users/u1/documents/by_hash/2cf24dba''"
    by (simp add: hashPrefix_def example_job_def runes_def)
  have lD: "ListChildren ?D (runes ''memory/users/u1/documents/by_hash/2cf24dba'') 1 =
      Inr [?child]"
    and lE: "ListChildren ?E (runes ''memory/users/u1/documents/by_hash/2cf24dba'') 1 =
      Inl (PlainError (runes ''list children: timeout''))"
    by (simp_all add: example_env_def)
  have sp: "last (strings_Split (Key ?child) (runes ''.'')) = runes ''doc-0''"
    by (simp add: strings_Split_def runes_def)
  have sk: "SetStatus StatusDupSkipped (runes ''dedup'')
      (example_job\<lparr>Status := StatusParsing, Phase := runes ''parsing'',
                  ContentHash := runes ''2cf24dba''\<rparr>) =
      example_job\<lparr>Status := StatusDupSkipped, Phase := runes ''dedup'',
                  ContentHash := runes ''2cf24dba''\<rparr>"
    by (simp add: SetStatus_def)
  have "ListChildren ?D (hashPrefix (hashed ?D example_job ?tree)) 1 = Inr [?child] \<longrightarrow>
      Process ?D example_worker example_job =
        Inr (SetStatus StatusDupSkipped (runes ''dedup'') (hashed ?D example_job ?tree),
             [EvListChildren (hashPrefix (hashed ?D example_job ?tree)) 1]) \<and>
      fst (checkDuplicate ?D (hashed ?D example_job ?tree)) =
        (True, last (strings_Split (Key ?child) (runes ''.'')), None)"
    using C6_duplicate_skipped [OF f pD, of example_worker] by blast
  with lD have 1: "Process ?D example_worker example_job =
     Inr (example_job\<lparr>Status := StatusDupSkipped, Phase := runes ''dedup'',
                       ContentHash := runes ''2cf24dba''\<rparr>,
          [EvListChildren (runes ''memory/users/u1/documents/by_hash/2cf24dba'') 1])"
    and 2: "fst (checkDuplicate ?D
          (example_job\<lparr>Status := StatusParsing, Phase := runes ''parsing'',
                       ContentHash := runes ''2cf24dba''\<rparr>)) =
     (True, runes ''doc-0'', None)"
    unfolding hD k sp sk by blast+
  from C6_duplicate_skipped [OF f pE, of example_worker] lE
  have 3: "\<exists>j tr. Process ?E example_worker example_job =
        Inr (j, EvListChildren (runes ''memory/users/u1/documents/by_hash/2cf24dba'') 1 #
                EvChunkTree # tr) \<and>
      Status j \<noteq> StatusDupSkipped"
    unfolding hE k by blast
  from f pD 1 2 3 show ?thesis by blast
qed

end
